theory Spec2Isabelle
  imports Main "HOL-Library.Word"
begin

section \<open>The ExoticDexFHE contract (contracts/Exotic_DEX.sol)\<close>

text \<open>
  A shallow embedding of the Solidity contract \<^verbatim>\<open>ExoticDexFHE\<close>. Storage is a record.
  Every external function is a HOL function from the storage before the call to one of
  two results: \<open>Inl (e, s')\<close> when the call reverts with the error \<open>e\<close>, where \<open>s'\<close>
  is the storage as the function had written it when it reverted; or \<open>Inr\<close> of the
  storage after the call together with the event it emits. The statements of a function
  are taken in the order of the source, so a write that precedes a failing statement
  shows in \<open>s'\<close>. Solidity 0.8 arithmetic is checked: an overflowing \<^verbatim>\<open>+\<close> or \<^verbatim>\<open>++\<close>
  reverts with \<^verbatim>\<open>Panic(0x11)\<close>. Mappings are total functions whose default value is
  zero, as in the EVM.
\<close>

subsection \<open>Value types\<close>

type_synonym address = "160 word"
type_synonym uint256 = "256 word"
type_synonym uint32 = "32 word"
type_synonym bytes32 = "256 word"
type_synonym bytes = "8 word list"

subsection \<open>Storage\<close>

record Batch =
  id_Batch :: uint256
  "open" :: bool
  priceSum :: uint256
  count :: uint256

record DecryptionContext =
  batchId :: uint256
  stateHash :: bytes32
  processed :: bool

record storage =
  owner :: address
  isProvider :: "address \<Rightarrow> bool"
  lastSubmissionTime :: "address \<Rightarrow> uint256"
  lastDecryptionRequestTime :: "address \<Rightarrow> uint256"
  cooldownSeconds :: uint256
  paused :: bool
  currentBatch :: Batch
  decryptionContexts :: "uint256 \<Rightarrow> DecryptionContext"

subsection \<open>Errors and events\<close>

datatype error =
    NotOwner
  | NotProvider
  | PausedError
  | CooldownActive
  | BatchClosedOrNonExistent
  | InvalidBatchState
  | ReplayAttempt
  | StateMismatch
  | InvalidProof
  | NotInitialized
  | RequireFailed string
  | Panic nat
  | AbiDecodeFailed

datatype 'h event =
    OwnershipTransferred address address
  | ProviderAdded address
  | ProviderRemoved address
  | CooldownSet uint256 uint256
  | Paused address
  | Unpaused address
  | BatchOpened uint256
  | BatchClosed uint256 uint256 uint256
  | PriceSubmitted address uint256 'h
  | DecryptionRequested uint256 uint256 bytes32
  | DecryptionCompleted uint256 uint256 uint256

subsection \<open>The imported FHE library\<close>

text \<open>
  The contract imports \<^verbatim>\<open>FHE\<close>, \<^verbatim>\<open>euint32\<close> from \<^verbatim>\<open>@fhevm/solidity\<close>, which is not
  part of the repository. Its operations are parameters of the model: \<open>'h\<close> is the type
  of \<^verbatim>\<open>euint32\<close> handles, and a value of type \<open>'h fhe\<close> supplies the library calls the
  contract makes, the hash \<^verbatim>\<open>keccak256(abi.encode(cts, address(this)))\<close> and the
  contract's own address. The library calls are total functions here: a revert inside
  the library is not modelled.
\<close>

record 'h fhe =
  FHE_asEuint32 :: "uint256 \<Rightarrow> 'h"
  FHE_add :: "'h \<Rightarrow> 'h \<Rightarrow> 'h"
  FHE_div :: "'h \<Rightarrow> 'h \<Rightarrow> 'h"
  FHE_toUint32 :: "'h \<Rightarrow> uint32"
  FHE_toBytes32 :: "'h \<Rightarrow> bytes32"
  FHE_isInitialized :: "'h \<Rightarrow> bool"
  FHE_checkSignatures :: "uint256 \<Rightarrow> bytes \<Rightarrow> bytes \<Rightarrow> bool"
  keccak256_encode :: "bytes32 list \<Rightarrow> address \<Rightarrow> bytes32"
  this :: address

subsection \<open>Checked arithmetic and ABI decoding\<close>

text \<open>\<open>fits a b\<close>: the sum of two \<^verbatim>\<open>uint256\<close> values is itself a \<^verbatim>\<open>uint256\<close>.\<close>

definition fits :: "uint256 \<Rightarrow> uint256 \<Rightarrow> bool" where
  "fits a b \<longleftrightarrow> unat a + unat b < 2 ^ 256"

definition checked_add :: "uint256 \<Rightarrow> uint256 \<Rightarrow> error + uint256" where
  "checked_add a b = (if fits a b then Inr (a + b) else Inl (Panic 17))"

text \<open>\<^verbatim>\<open>abi.decode(cleartexts, (uint256))\<close>: the first 32 bytes, big-endian; shorter
  input reverts.\<close>

definition be_uint256 :: "bytes \<Rightarrow> uint256" where
  "be_uint256 bs = foldl (\<lambda>acc b. acc * 256 + ucast b) 0 bs"

definition abi_decode_uint256 :: "bytes \<Rightarrow> error + uint256" where
  "abi_decode_uint256 bs =
     (if length bs < 32 then Inl AbiDecodeFailed else Inr (be_uint256 (take 32 bs)))"

subsection \<open>Modifiers\<close>

text \<open>A modifier either reverts (\<open>Some e\<close>) or lets the call go on (\<open>None\<close>);
  \<open>guard m s k\<close> runs the rest \<open>k\<close> of the call after the modifier \<open>m\<close>, which
  reverts in the storage \<open>s\<close>.\<close>

fun guard :: "error option \<Rightarrow> storage \<Rightarrow> (error \<times> storage + 'a) \<Rightarrow> error \<times> storage + 'a" where
  "guard (Some e) s k = Inl (e, s)"
| "guard None s k = k"

definition onlyOwner :: "storage \<Rightarrow> address \<Rightarrow> error option" where
  "onlyOwner s sender = (if sender \<noteq> owner s then Some NotOwner else None)"

definition onlyProvider :: "storage \<Rightarrow> address \<Rightarrow> error option" where
  "onlyProvider s sender = (if \<not> isProvider s sender then Some NotProvider else None)"

definition whenNotPaused :: "storage \<Rightarrow> error option" where
  "whenNotPaused s = (if paused s then Some PausedError else None)"

definition checkSubmissionCooldown :: "storage \<Rightarrow> address \<Rightarrow> uint256 \<Rightarrow> error option" where
  "checkSubmissionCooldown s sender now =
     (case checked_add (lastSubmissionTime s sender) (cooldownSeconds s) of
        Inl e \<Rightarrow> Some e
      | Inr due \<Rightarrow> if now < due then Some CooldownActive else None)"

definition checkDecryptionCooldown :: "storage \<Rightarrow> address \<Rightarrow> uint256 \<Rightarrow> error option" where
  "checkDecryptionCooldown s sender now =
     (case checked_add (lastDecryptionRequestTime s sender) (cooldownSeconds s) of
        Inl e \<Rightarrow> Some e
      | Inr due \<Rightarrow> if now < due then Some CooldownActive else None)"

subsection \<open>Constructor and owner functions\<close>

definition constructor :: "address \<Rightarrow> storage" where
  "constructor sender =
     \<lparr> owner = sender,
       isProvider = (\<lambda>_. False),
       lastSubmissionTime = (\<lambda>_. 0),
       lastDecryptionRequestTime = (\<lambda>_. 0),
       cooldownSeconds = 60,
       paused = False,
       currentBatch = \<lparr> id_Batch = 0, open = False, priceSum = 0, count = 0 \<rparr>,
       decryptionContexts = (\<lambda>_. \<lparr> batchId = 0, stateHash = 0, processed = False \<rparr>) \<rparr>"

definition transferOwnership ::
  "address \<Rightarrow> address \<Rightarrow> storage \<Rightarrow> error \<times> storage + storage \<times> 'h event" where
  "transferOwnership sender newOwner s =
     guard (onlyOwner s sender) s
       (Inr (s\<lparr>owner := newOwner\<rparr>, OwnershipTransferred (owner s) newOwner))"

definition addProvider ::
  "address \<Rightarrow> address \<Rightarrow> storage \<Rightarrow> error \<times> storage + storage \<times> 'h event" where
  "addProvider sender provider s =
     guard (onlyOwner s sender) s
       (Inr (s\<lparr>isProvider := (isProvider s)(provider := True)\<rparr>, ProviderAdded provider))"

definition removeProvider ::
  "address \<Rightarrow> address \<Rightarrow> storage \<Rightarrow> error \<times> storage + storage \<times> 'h event" where
  "removeProvider sender provider s =
     guard (onlyOwner s sender) s
       (Inr (s\<lparr>isProvider := (isProvider s)(provider := False)\<rparr>, ProviderRemoved provider))"

definition setCooldownSeconds ::
  "address \<Rightarrow> uint256 \<Rightarrow> storage \<Rightarrow> error \<times> storage + storage \<times> 'h event" where
  "setCooldownSeconds sender newCooldown s =
     guard (onlyOwner s sender) s
       (if \<not> newCooldown > 0 then Inl (RequireFailed ''Cooldown must be positive'', s)
        else Inr (s\<lparr>cooldownSeconds := newCooldown\<rparr>,
                  CooldownSet (cooldownSeconds s) newCooldown))"

definition pause :: "address \<Rightarrow> storage \<Rightarrow> error \<times> storage + storage \<times> 'h event" where
  "pause sender s =
     guard (onlyOwner s sender) s (Inr (s\<lparr>paused := True\<rparr>, Paused sender))"

definition unpause :: "address \<Rightarrow> storage \<Rightarrow> error \<times> storage + storage \<times> 'h event" where
  "unpause sender s =
     guard (onlyOwner s sender) s (Inr (s\<lparr>paused := False\<rparr>, Unpaused sender))"

subsection \<open>Batch lifecycle\<close>

text \<open>In \<^verbatim>\<open>openBatch\<close> the checked \<^verbatim>\<open>currentBatch.id++\<close> is the first write, so a
  panic there finds the storage untouched.\<close>

definition openBatch :: "address \<Rightarrow> storage \<Rightarrow> error \<times> storage + storage \<times> 'h event" where
  "openBatch sender s =
     guard (onlyOwner s sender) s (guard (whenNotPaused s) s
       (if open (currentBatch s) then Inl (InvalidBatchState, s)
        else case checked_add (id_Batch (currentBatch s)) 1 of
          Inl e \<Rightarrow> Inl (e, s)
        | Inr newId \<Rightarrow>
            Inr (s\<lparr>currentBatch :=
                     \<lparr> id_Batch = newId, open = True, priceSum = 0, count = 0 \<rparr>\<rparr>,
                 BatchOpened newId)))"

definition closeBatch :: "address \<Rightarrow> storage \<Rightarrow> error \<times> storage + storage \<times> 'h event" where
  "closeBatch sender s =
     guard (onlyOwner s sender) s (guard (whenNotPaused s) s
       (if \<not> open (currentBatch s) then Inl (BatchClosedOrNonExistent, s)
        else Inr (s\<lparr>currentBatch := (currentBatch s)\<lparr>open := False\<rparr>\<rparr>,
                  BatchClosed (id_Batch (currentBatch s)) (priceSum (currentBatch s))
                    (count (currentBatch s)))))"

subsection \<open>Submission\<close>

text \<open>
  The body writes the caller's timer (\<open>s1\<close>) and the new sum (\<open>s2\<close>) before the
  checked \<^verbatim>\<open>currentBatch.count++\<close>, which can still panic.
\<close>

definition submitEncryptedPrice ::
  "'h fhe \<Rightarrow> address \<Rightarrow> uint256 \<Rightarrow> 'h \<Rightarrow> storage \<Rightarrow> error \<times> storage + storage \<times> 'h event" where
  "submitEncryptedPrice E sender now encryptedPrice s =
     guard (onlyProvider s sender) s (guard (whenNotPaused s) s
     (guard (checkSubmissionCooldown s sender now) s
       (if \<not> open (currentBatch s) then Inl (BatchClosedOrNonExistent, s)
        else if \<not> FHE_isInitialized E encryptedPrice then Inl (NotInitialized, s)
        else
          let s1 = s\<lparr>lastSubmissionTime := (lastSubmissionTime s)(sender := now)\<rparr>;
              s2 = s1\<lparr>currentBatch := (currentBatch s1)\<lparr>priceSum :=
                     ucast (FHE_toUint32 E
                       (FHE_add E (FHE_asEuint32 E (priceSum (currentBatch s1)))
                          encryptedPrice))\<rparr>\<rparr>
          in case checked_add (count (currentBatch s2)) 1 of
            Inl e \<Rightarrow> Inl (e, s2)
          | Inr newCount \<Rightarrow>
              Inr (s2\<lparr>currentBatch := (currentBatch s2)\<lparr>count := newCount\<rparr>\<rparr>,
                   PriceSubmitted sender (id_Batch (currentBatch s2)) encryptedPrice))))"

subsection \<open>Decryption request and callback\<close>

definition hashCiphertexts :: "'h fhe \<Rightarrow> bytes32 list \<Rightarrow> bytes32" where
  "hashCiphertexts E cts = keccak256_encode E cts (this E)"

text \<open>
  \<^verbatim>\<open>FHE.requestDecryption(cts, this.myCallback.selector)\<close> hands the ciphertexts
  \<open>cts\<close> to the decryption oracle and returns the request id the oracle assigns. The
  oracle is outside the contract: the id it returns is an argument of the call, and the
  ciphertexts handed to it are the third component of the result. The body writes the
  caller's timer (\<open>s1\<close>) before the two \<^verbatim>\<open>_initIfNeeded\<close> checks.
\<close>

definition requestPriceDecryption ::
  "'h fhe \<Rightarrow> address \<Rightarrow> uint256 \<Rightarrow> uint256 \<Rightarrow> storage
     \<Rightarrow> error \<times> storage + storage \<times> 'h event \<times> bytes32 list" where
  "requestPriceDecryption E sender now requestId s =
     guard (whenNotPaused s) s (guard (checkDecryptionCooldown s sender now) s
       (if open (currentBatch s) \<or> count (currentBatch s) = 0 then Inl (InvalidBatchState, s)
        else
          let s1 = s\<lparr>lastDecryptionRequestTime :=
                       (lastDecryptionRequestTime s)(sender := now)\<rparr>;
              encryptedTotalPrice = FHE_asEuint32 E (priceSum (currentBatch s1));
              encryptedCount = FHE_asEuint32 E (count (currentBatch s1))
          in if \<not> FHE_isInitialized E encryptedTotalPrice then Inl (NotInitialized, s1)
          else if \<not> FHE_isInitialized E encryptedCount then Inl (NotInitialized, s1)
          else
            let encryptedAvgPrice = FHE_div E encryptedTotalPrice encryptedCount;
                cts = [FHE_toBytes32 E encryptedAvgPrice];
                h = hashCiphertexts E cts
            in Inr (s1\<lparr>decryptionContexts := (decryptionContexts s1)(requestId :=
                        \<lparr> batchId = id_Batch (currentBatch s1), stateHash = h,
                          processed = False \<rparr>)\<rparr>,
                    DecryptionRequested requestId (id_Batch (currentBatch s1)) h,
                    cts)))"

definition myCallback ::
  "'h fhe \<Rightarrow> address \<Rightarrow> uint256 \<Rightarrow> uint256 \<Rightarrow> bytes \<Rightarrow> bytes \<Rightarrow> storage
     \<Rightarrow> error \<times> storage + storage \<times> 'h event" where
  "myCallback E sender now requestId cleartexts proof s =
     (if processed (decryptionContexts s requestId) then Inl (ReplayAttempt, s)
      else
        let batch = currentBatch s
        in if id_Batch batch \<noteq> batchId (decryptionContexts s requestId) \<or> open batch
              \<or> count batch = 0
           then Inl (InvalidBatchState, s)
           else
             let encryptedTotalPrice = FHE_asEuint32 E (priceSum batch);
                 encryptedCount = FHE_asEuint32 E (count batch)
             in if \<not> FHE_isInitialized E encryptedTotalPrice then Inl (NotInitialized, s)
             else if \<not> FHE_isInitialized E encryptedCount then Inl (NotInitialized, s)
             else
               let encryptedAvgPrice = FHE_div E encryptedTotalPrice encryptedCount;
                   cts = [FHE_toBytes32 E encryptedAvgPrice];
                   currentHash = hashCiphertexts E cts
               in if currentHash \<noteq> stateHash (decryptionContexts s requestId)
                  then Inl (StateMismatch, s)
                  else if \<not> FHE_checkSignatures E requestId cleartexts proof
                  then Inl (InvalidProof, s)
                  else case abi_decode_uint256 cleartexts of
                    Inl e \<Rightarrow> Inl (e, s)
                  | Inr finalPrice \<Rightarrow>
                      Inr (s\<lparr>decryptionContexts := (decryptionContexts s)(requestId :=
                              (decryptionContexts s requestId)\<lparr>processed := True\<rparr>)\<rparr>,
                           DecryptionCompleted requestId (id_Batch batch) finalPrice))"

subsection \<open>Transactions\<close>

text \<open>
  A transaction is a caller, a block timestamp and a call. \<open>exec\<close> runs the function
  called. The EVM discards every write of a call that reverts: \<open>transact\<close> is that
  rule, it returns the storage before the call and no event when the function reverts,
  whatever the function had written. \<open>run\<close> applies a list of transactions in order.
\<close>

datatype 'h call =
    TransferOwnership address
  | AddProvider address
  | RemoveProvider address
  | SetCooldownSeconds uint256
  | Pause
  | Unpause
  | OpenBatch
  | CloseBatch
  | SubmitEncryptedPrice 'h
  | RequestPriceDecryption uint256
  | MyCallback uint256 bytes bytes

fun exec ::
  "'h fhe \<Rightarrow> address \<Rightarrow> uint256 \<Rightarrow> 'h call \<Rightarrow> storage
     \<Rightarrow> error \<times> storage + storage \<times> 'h event" where
  "exec E sender now (TransferOwnership a) s = transferOwnership sender a s"
| "exec E sender now (AddProvider a) s = addProvider sender a s"
| "exec E sender now (RemoveProvider a) s = removeProvider sender a s"
| "exec E sender now (SetCooldownSeconds c) s = setCooldownSeconds sender c s"
| "exec E sender now Pause s = pause sender s"
| "exec E sender now Unpause s = unpause sender s"
| "exec E sender now OpenBatch s = openBatch sender s"
| "exec E sender now CloseBatch s = closeBatch sender s"
| "exec E sender now (SubmitEncryptedPrice x) s = submitEncryptedPrice E sender now x s"
| "exec E sender now (RequestPriceDecryption r) s =
     (case requestPriceDecryption E sender now r s of
        Inl f \<Rightarrow> Inl f
      | Inr (s', ev, cts) \<Rightarrow> Inr (s', ev))"
| "exec E sender now (MyCallback r c p) s = myCallback E sender now r c p s"

datatype 'h outcome = Reverted error | Emitted "'h event"

definition transact ::
  "'h fhe \<Rightarrow> storage \<Rightarrow> address \<times> uint256 \<times> 'h call \<Rightarrow> storage \<times> 'h outcome" where
  "transact E s tx =
     (case tx of (sender, now, c) \<Rightarrow>
        (case exec E sender now c s of
           Inl (e, s') \<Rightarrow> (s, Reverted e)
         | Inr (s', ev) \<Rightarrow> (s', Emitted ev)))"

definition run :: "'h fhe \<Rightarrow> storage \<Rightarrow> (address \<times> uint256 \<times> 'h call) list \<Rightarrow> storage" where
  "run E s txs = foldl (\<lambda>s tx. fst (transact E s tx)) s txs"

subsection \<open>A transparent engine for concrete runs\<close>

text \<open>
  An instance of the library parameters in which a handle is its own 32-bit plaintext:
  addition wraps at \<open>2 ^ 32\<close>, division is integer division, every handle is
  initialised, a proof is accepted when it repeats the cleartexts. It is used to
  evaluate the contract on concrete transactions.
\<close>

definition clear_engine :: "uint32 fhe" where
  "clear_engine =
     \<lparr> FHE_asEuint32 = ucast,
       FHE_add = (\<lambda>a b. a + b),
       FHE_div = (\<lambda>a b. a div b),
       FHE_toUint32 = (\<lambda>h. h),
       FHE_toBytes32 = ucast,
       FHE_isInitialized = (\<lambda>_. True),
       FHE_checkSignatures = (\<lambda>r c p. p = c),
       keccak256_encode = (\<lambda>cts a. sum_list cts + ucast a),
       this = 49374 \<rparr>"

subsection \<open>Derived notions used in the statements\<close>

text \<open>
  The ciphertext both \<^verbatim>\<open>requestPriceDecryption\<close> and \<^verbatim>\<open>myCallback\<close> derive from a
  batch, and the hash they take of it.
\<close>

definition averageHandle :: "'h fhe \<Rightarrow> Batch \<Rightarrow> 'h" where
  "averageHandle E b = FHE_div E (FHE_asEuint32 E (priceSum b)) (FHE_asEuint32 E (count b))"

definition commitment :: "'h fhe \<Rightarrow> Batch \<Rightarrow> bytes32" where
  "commitment E b = hashCiphertexts E [FHE_toBytes32 E (averageHandle E b)]"

text \<open>
  \<open>batch_kept b S C s\<close>: the current batch is still the closed batch \<open>b\<close> with sum
  \<open>S\<close> and count \<open>C\<close>, or a later batch has been opened since.
\<close>

definition batch_kept :: "uint256 \<Rightarrow> uint256 \<Rightarrow> uint256 \<Rightarrow> storage \<Rightarrow> bool" where
  "batch_kept b S C s \<longleftrightarrow>
     (id_Batch (currentBatch s) = b \<and> \<not> open (currentBatch s)
        \<and> priceSum (currentBatch s) = S \<and> count (currentBatch s) = C)
     \<or> unat b < unat (id_Batch (currentBatch s))"

text \<open>
  \<open>context_unused r s\<close>: no context has been stored under request id \<open>r\<close> (the
  mapping still holds its zero default there), and batch id 0 is the closed, empty
  batch of the constructor.
\<close>

definition context_unused :: "uint256 \<Rightarrow> storage \<Rightarrow> bool" where
  "context_unused r s \<longleftrightarrow>
     decryptionContexts s r = \<lparr> batchId = 0, stateHash = 0, processed = False \<rparr>
     \<and> (id_Batch (currentBatch s) = 0 \<longrightarrow> \<not> open (currentBatch s) \<and> count (currentBatch s) = 0)"

text \<open>
  What the statements about the revealed average assume of the library. \<open>dec\<close> is
  the plaintext of a ciphertext as it is handed to the oracle (a \<^verbatim>\<open>bytes32\<close>), so the
  plaintext of a handle \<open>x\<close> is \<open>dec (FHE_toBytes32 E x)\<close>. \<^verbatim>\<open>asEuint32\<close> encrypts the
  low 32 bits of its argument, \<^verbatim>\<open>add\<close> and \<^verbatim>\<open>div\<close> (by a non-zero divisor) act on the
  plaintexts as the 32-bit operations, and \<^verbatim>\<open>toUint32\<close> returns the plaintext.
\<close>

definition homomorphic :: "'h fhe \<Rightarrow> (bytes32 \<Rightarrow> uint32) \<Rightarrow> bool" where
  "homomorphic E dec \<longleftrightarrow>
     (\<forall>w. dec (FHE_toBytes32 E (FHE_asEuint32 E w)) = ucast w)
     \<and> (\<forall>x y. dec (FHE_toBytes32 E (FHE_add E x y))
                 = dec (FHE_toBytes32 E x) + dec (FHE_toBytes32 E y))
     \<and> (\<forall>x y. dec (FHE_toBytes32 E y) \<noteq> 0 \<longrightarrow>
                dec (FHE_toBytes32 E (FHE_div E x y))
                  = dec (FHE_toBytes32 E x) div dec (FHE_toBytes32 E y))
     \<and> (\<forall>x. FHE_toUint32 E x = dec (FHE_toBytes32 E x))"

text \<open>A sequence of submissions, each of which succeeds; the plaintexts submitted.\<close>

fun submissions ::
  "'h fhe \<Rightarrow> (address \<times> uint256 \<times> 'h) list \<Rightarrow> storage \<Rightarrow> error \<times> storage + storage" where
  "submissions E [] s = Inr s"
| "submissions E ((a, t, x) # rest) s =
     (case submitEncryptedPrice E a t x s of
        Inl f \<Rightarrow> Inl f
      | Inr (s', ev) \<Rightarrow> submissions E rest s')"

definition samples ::
  "'h fhe \<Rightarrow> (bytes32 \<Rightarrow> uint32) \<Rightarrow> (address \<times> uint256 \<times> 'h) list \<Rightarrow> nat list" where
  "samples E dec subs = map (\<lambda>(a, t, x). unat (dec (FHE_toBytes32 E x))) subs"

subsection \<open>Concrete runs\<close>

text \<open>
  Owner 13 registers providers 10 and 12 and opens batch 1; they submit 100 and 200; the
  owner closes the batch; address 11 requests the decryption and the oracle assigns it
  request id 1; caller 666 delivers the cleartext 150.
\<close>

definition s_registered :: storage where
  "s_registered = run clear_engine (constructor 13)
     [(13, 1700000000, AddProvider 10), (13, 1700000000, AddProvider 12)]"

definition s_opened :: storage where
  "s_opened = run clear_engine s_registered [(13, 1700000000, OpenBatch)]"

definition scenario_subs :: "(address \<times> uint256 \<times> uint32) list" where
  "scenario_subs = [(10, 1700000000, 100), (12, 1700000000, 200)]"

definition s_submitted :: storage where
  "s_submitted = run clear_engine s_opened
     [(10, 1700000000, SubmitEncryptedPrice 100), (12, 1700000000, SubmitEncryptedPrice 200)]"

definition s_closed :: storage where
  "s_closed = run clear_engine (constructor 13)
     [(13, 1700000000, AddProvider 10), (13, 1700000000, AddProvider 12),
      (13, 1700000000, OpenBatch),
      (10, 1700000000, SubmitEncryptedPrice 100), (12, 1700000000, SubmitEncryptedPrice 200),
      (13, 1700000001, CloseBatch)]"

definition s_requested :: storage where
  "s_requested = run clear_engine s_closed [(11, 1700000002, RequestPriceDecryption 1)]"

definition cleartext150 :: bytes where
  "cleartext150 =
     [0, 0, 0, 0, 0, 0, 0, 0, 0, 0, 0, 0, 0, 0, 0, 0,
      0, 0, 0, 0, 0, 0, 0, 0, 0, 0, 0, 0, 0, 0, 0, 150]"

definition s_finalized :: storage where
  "s_finalized = run clear_engine s_requested
     [(666, 1700000050, MyCallback 1 cleartext150 cleartext150)]"

text \<open>Later transactions: a second batch is opened, filled and closed.\<close>

definition reopened :: "(address \<times> uint256 \<times> uint32 call) list" where
  "reopened = [(13, 1700000100, OpenBatch), (10, 1700000100, SubmitEncryptedPrice 500),
               (13, 1700000101, CloseBatch)]"

definition later_calls :: "(address \<times> uint256 \<times> uint32 call) list" where
  "later_calls = [(11, 1700000070, RequestPriceDecryption 2), (13, 1700000100, OpenBatch),
                  (10, 1700000100, SubmitEncryptedPrice 500), (13, 1700000101, CloseBatch)]"

text \<open>Other states: paused ones, an open batch after one submission, cooldowns set by
  the owner, and a batch whose 32-bit sum wraps around.\<close>

definition s_paused :: storage where
  "s_paused = run clear_engine (constructor 13)
     [(13, 1700000000, AddProvider 10), (13, 1700000000, Pause)]"

definition s_requested_paused :: storage where
  "s_requested_paused = run clear_engine s_requested [(13, 1700000040, Pause)]"

definition s_open :: storage where
  "s_open = run clear_engine (constructor 13)
     [(13, 1700000000, AddProvider 10), (13, 1700000000, OpenBatch),
      (10, 1700000000, SubmitEncryptedPrice 100)]"

definition s_max_cooldown :: storage where
  "s_max_cooldown = run clear_engine s_open
     [(13, 1700000005, SetCooldownSeconds
         115792089237316195423570985008687907853269984665640564039457584007913129639935)]"

definition s_requested_max_cooldown :: storage where
  "s_requested_max_cooldown = run clear_engine s_requested
     [(13, 1700000005, SetCooldownSeconds
         115792089237316195423570985008687907853269984665640564039457584007913129639935)]"

definition s_fresh_long :: storage where
  "s_fresh_long = run clear_engine (constructor 13)
     [(13, 1700000000, SetCooldownSeconds 2000000000), (13, 1700000000, AddProvider 10),
      (13, 1700000000, OpenBatch)]"

definition cleartext0 :: bytes where
  "cleartext0 =
     [0, 0, 0, 0, 0, 0, 0, 0, 0, 0, 0, 0, 0, 0, 0, 0,
      0, 0, 0, 0, 0, 0, 0, 0, 0, 0, 0, 0, 0, 0, 0, 0]"

definition wrapping_subs :: "(address \<times> uint256 \<times> uint32) list" where
  "wrapping_subs = [(10, 1700000000, 4294967295), (12, 1700000000, 1)]"

definition s_wrapped_closed :: storage where
  "s_wrapped_closed = run clear_engine s_opened
     [(10, 1700000000, SubmitEncryptedPrice 4294967295),
      (12, 1700000000, SubmitEncryptedPrice 1),
      (13, 1700000001, CloseBatch)]"

definition s_wrapped :: storage where
  "s_wrapped = run clear_engine s_wrapped_closed [(11, 1700000002, RequestPriceDecryption 1)]"

text \<open>A storage in which the count of the open batch is the largest \<^verbatim>\<open>uint256\<close>, and
  the storage the next submission has written when its \<^verbatim>\<open>count++\<close> panics.\<close>

definition s_count_full :: storage where
  "s_count_full = s_open\<lparr>currentBatch := (currentBatch s_open)\<lparr>count :=
     115792089237316195423570985008687907853269984665640564039457584007913129639935\<rparr>\<rparr>"

definition s_count_full_written :: storage where
  "s_count_full_written =
     s_count_full\<lparr>lastSubmissionTime := (lastSubmissionTime s_count_full)(10 := 1700000060),
                  currentBatch := (currentBatch s_count_full)\<lparr>priceSum := 107\<rparr>\<rparr>"

section \<open>Properties\<close>

subsection \<open>Unfolding and success conditions of each call\<close>

lemmas op_defs = transferOwnership_def addProvider_def removeProvider_def
  setCooldownSeconds_def pause_def unpause_def openBatch_def closeBatch_def
  submitEncryptedPrice_def requestPriceDecryption_def myCallback_def

lemmas mod_defs = onlyOwner_def onlyProvider_def whenNotPaused_def
  checkSubmissionCooldown_def checkDecryptionCooldown_def

lemmas eval_defs = run_def transact_def constructor_def op_defs mod_defs
  clear_engine_def checked_add_def fits_def hashCiphertexts_def Let_def

lemma fits_zero [simp]: "fits 0 b"
  using unsigned_less [of b, where 'a = nat] by (simp add: fits_def)

lemma fits_unat: "fits a b \<Longrightarrow> unat (a + b) = unat a + unat b"
  by (simp add: fits_def unat_word_ariths)

lemma checked_add_Inr_iff: "checked_add a b = Inr c \<longleftrightarrow> fits a b \<and> c = a + b"
  by (auto simp: checked_add_def)

lemma checked_add_Inl_iff: "checked_add a b = Inl e \<longleftrightarrow> \<not> fits a b \<and> e = Panic 17"
  by (auto simp: checked_add_def)

lemma guard_Inr: "guard g s k = Inr r \<longleftrightarrow> g = None \<and> k = Inr r"
  by (cases g) auto


lemma onlyOwner_None: "onlyOwner s a = None \<longleftrightarrow> a = owner s"
  by (simp add: onlyOwner_def)

lemma onlyProvider_None: "onlyProvider s a = None \<longleftrightarrow> isProvider s a"
  by (simp add: onlyProvider_def)

lemma whenNotPaused_None: "whenNotPaused s = None \<longleftrightarrow> \<not> paused s"
  by (simp add: whenNotPaused_def)

lemma checkSubmissionCooldown_None:
  "checkSubmissionCooldown s a t = None \<longleftrightarrow>
     fits (lastSubmissionTime s a) (cooldownSeconds s)
     \<and> lastSubmissionTime s a + cooldownSeconds s \<le> t"
  by (auto simp: checkSubmissionCooldown_def checked_add_def)

lemma checkDecryptionCooldown_None:
  "checkDecryptionCooldown s a t = None \<longleftrightarrow>
     fits (lastDecryptionRequestTime s a) (cooldownSeconds s)
     \<and> lastDecryptionRequestTime s a + cooldownSeconds s \<le> t"
  by (auto simp: checkDecryptionCooldown_def checked_add_def)

lemmas guard_simps = guard_Inr onlyOwner_None onlyProvider_None whenNotPaused_None
  checked_add_Inr_iff checked_add_Inl_iff

lemma openBatch_Inr:
  "openBatch a s = Inr (s', ev) \<longleftrightarrow>
     a = owner s \<and> \<not> paused s \<and> \<not> open (currentBatch s)
     \<and> fits (id_Batch (currentBatch s)) 1
     \<and> s' = s\<lparr>currentBatch := \<lparr> id_Batch = id_Batch (currentBatch s) + 1, open = True,
                                   priceSum = 0, count = 0 \<rparr>\<rparr>
     \<and> ev = BatchOpened (id_Batch (currentBatch s) + 1)"
  by (auto simp: openBatch_def guard_simps split: sum.splits)

lemma closeBatch_Inr:
  "closeBatch a s = Inr (s', ev) \<longleftrightarrow>
     a = owner s \<and> \<not> paused s \<and> open (currentBatch s)
     \<and> s' = s\<lparr>currentBatch := (currentBatch s)\<lparr>open := False\<rparr>\<rparr>
     \<and> ev = BatchClosed (id_Batch (currentBatch s)) (priceSum (currentBatch s))
              (count (currentBatch s))"
  by (auto simp: closeBatch_def guard_simps)

lemma submit_Inr:
  "submitEncryptedPrice E a t x s = Inr (s', ev) \<longleftrightarrow>
     isProvider s a \<and> \<not> paused s \<and> checkSubmissionCooldown s a t = None
     \<and> open (currentBatch s) \<and> FHE_isInitialized E x
     \<and> fits (count (currentBatch s)) 1
     \<and> s' = s\<lparr>lastSubmissionTime := (lastSubmissionTime s)(a := t),
              currentBatch := (currentBatch s)\<lparr>
                priceSum := ucast (FHE_toUint32 E
                   (FHE_add E (FHE_asEuint32 E (priceSum (currentBatch s))) x)),
                count := count (currentBatch s) + 1\<rparr>\<rparr>
     \<and> ev = PriceSubmitted a (id_Batch (currentBatch s)) x"
  by (auto simp: submitEncryptedPrice_def guard_simps Let_def split: sum.splits)

lemma request_Inr:
  "requestPriceDecryption E a t r s = Inr (s', ev, cts) \<longleftrightarrow>
     \<not> paused s \<and> checkDecryptionCooldown s a t = None
     \<and> \<not> open (currentBatch s) \<and> count (currentBatch s) \<noteq> 0
     \<and> FHE_isInitialized E (FHE_asEuint32 E (priceSum (currentBatch s)))
     \<and> FHE_isInitialized E (FHE_asEuint32 E (count (currentBatch s)))
     \<and> s' = s\<lparr>lastDecryptionRequestTime := (lastDecryptionRequestTime s)(a := t),
              decryptionContexts := (decryptionContexts s)(r :=
                \<lparr> batchId = id_Batch (currentBatch s),
                  stateHash = commitment E (currentBatch s),
                  processed = False \<rparr>)\<rparr>
     \<and> ev = DecryptionRequested r (id_Batch (currentBatch s)) (commitment E (currentBatch s))
     \<and> cts = [FHE_toBytes32 E (FHE_div E (FHE_asEuint32 E (priceSum (currentBatch s)))
                  (FHE_asEuint32 E (count (currentBatch s))))]"
  by (auto simp: requestPriceDecryption_def guard_simps Let_def commitment_def averageHandle_def)

lemma exec_request_Inr:
  "(case requestPriceDecryption E a t r s of
      Inl f \<Rightarrow> Inl f | Inr (s1, ev1, cts) \<Rightarrow> Inr (s1, ev1)) = Inr (s', ev)
     \<longleftrightarrow> (\<exists>cts. requestPriceDecryption E a t r s = Inr (s', ev, cts))"
  by (auto split: sum.splits)

lemma myCallback_Inr:
  "myCallback E a t r c p s = Inr (s', ev) \<longleftrightarrow>
     \<not> processed (decryptionContexts s r)
     \<and> id_Batch (currentBatch s) = batchId (decryptionContexts s r)
     \<and> \<not> open (currentBatch s) \<and> count (currentBatch s) \<noteq> 0
     \<and> FHE_isInitialized E (FHE_asEuint32 E (priceSum (currentBatch s)))
     \<and> FHE_isInitialized E (FHE_asEuint32 E (count (currentBatch s)))
     \<and> commitment E (currentBatch s) = stateHash (decryptionContexts s r)
     \<and> FHE_checkSignatures E r c p
     \<and> s' = s\<lparr>decryptionContexts := (decryptionContexts s)(r :=
                (decryptionContexts s r)\<lparr>processed := True\<rparr>)\<rparr>
     \<and> (\<exists>v. abi_decode_uint256 c = Inr v
            \<and> ev = DecryptionCompleted r (id_Batch (currentBatch s)) v)"
  by (auto simp: myCallback_def Let_def commitment_def averageHandle_def split: sum.splits)

lemma transferOwnership_Inr:
  "transferOwnership a n s = Inr (s', ev) \<longleftrightarrow>
     a = owner s \<and> s' = s\<lparr>owner := n\<rparr> \<and> ev = OwnershipTransferred (owner s) n"
  by (auto simp: transferOwnership_def guard_simps)

lemma addProvider_Inr:
  "addProvider a q s = Inr (s', ev) \<longleftrightarrow>
     a = owner s \<and> s' = s\<lparr>isProvider := (isProvider s)(q := True)\<rparr> \<and> ev = ProviderAdded q"
  by (auto simp: addProvider_def guard_simps)

lemma removeProvider_Inr:
  "removeProvider a q s = Inr (s', ev) \<longleftrightarrow>
     a = owner s \<and> s' = s\<lparr>isProvider := (isProvider s)(q := False)\<rparr>
     \<and> ev = ProviderRemoved q"
  by (auto simp: removeProvider_def guard_simps)

lemma setCooldownSeconds_Inr:
  "setCooldownSeconds a k s = Inr (s', ev) \<longleftrightarrow>
     a = owner s \<and> 0 < k \<and> s' = s\<lparr>cooldownSeconds := k\<rparr>
     \<and> ev = CooldownSet (cooldownSeconds s) k"
  by (auto simp: setCooldownSeconds_def guard_simps)

lemma pause_Inr:
  "pause a s = Inr (s', ev) \<longleftrightarrow> a = owner s \<and> s' = s\<lparr>paused := True\<rparr> \<and> ev = Paused a"
  by (auto simp: pause_def guard_simps)

lemma unpause_Inr:
  "unpause a s = Inr (s', ev) \<longleftrightarrow> a = owner s \<and> s' = s\<lparr>paused := False\<rparr> \<and> ev = Unpaused a"
  by (auto simp: unpause_def guard_simps)

lemmas call_Inr = openBatch_Inr closeBatch_Inr submit_Inr request_Inr exec_request_Inr
  myCallback_Inr transferOwnership_Inr addProvider_Inr removeProvider_Inr
  setCooldownSeconds_Inr pause_Inr unpause_Inr

subsection \<open>The storage at a revert\<close>








subsection \<open>Runs\<close>

lemma run_Nil [simp]: "run E s [] = s"
  by (simp add: run_def)

lemma run_Cons [simp]: "run E s (tx # txs) = run E (fst (transact E s tx)) txs"
  by (simp add: run_def)

lemma transact_cases:
  "fst (transact E s (a, t, c)) = s
   \<or> (\<exists>ev. exec E a t c s = Inr (fst (transact E s (a, t, c)), ev))"
  by (auto simp: transact_def split: sum.splits prod.splits)

lemma run_invariant:
  assumes step: "\<forall>s a t c s' ev. P s \<and> Q c \<and> exec E a t c s = Inr (s', ev) \<longrightarrow> P s'"
      and calls: "\<forall>tx \<in> set txs. Q (snd (snd tx))"
      and init: "P s"
  shows "P (run E s txs)"
  using calls init
proof (induction txs arbitrary: s)
  case Nil
  then show ?case by simp
next
  case (Cons tx txs)
  obtain a t c where tx: "tx = (a, t, c)" by (cases tx)
  have q: "Q c" using Cons.prems(1) tx by simp
  have "P (fst (transact E s (a, t, c)))"
  proof -
    from transact_cases [of E s a t c] show ?thesis
    proof
      assume "fst (transact E s (a, t, c)) = s"
      then show ?thesis using Cons.prems(2) by simp
    next
      assume "\<exists>ev. exec E a t c s = Inr (fst (transact E s (a, t, c)), ev)"
      then obtain ev where "exec E a t c s = Inr (fst (transact E s (a, t, c)), ev)" ..
      with step q Cons.prems(2) show ?thesis by blast
    qed
  qed
  moreover have "\<forall>tx \<in> set txs. Q (snd (snd tx))" using Cons.prems(1) by simp
  ultimately have "P (run E (fst (transact E s (a, t, c))) txs)"
    by (rule Cons.IH [rotated])
  then show ?case by (simp add: tx)
qed

lemma myCallback_replay:
  "processed (decryptionContexts s r) \<Longrightarrow> myCallback E a t r c p s = Inl (ReplayAttempt, s)"
  by (simp add: myCallback_def)

lemma myCallback_batch_state:
  "\<not> processed (decryptionContexts s r) \<Longrightarrow>
   id_Batch (currentBatch s) \<noteq> batchId (decryptionContexts s r) \<or> open (currentBatch s)
     \<or> count (currentBatch s) = 0 \<Longrightarrow>
   myCallback E a t r c p s = Inl (InvalidBatchState, s)"
  unfolding myCallback_def Let_def by (simp only: if_False if_True)

lemma fits_one_nonzero: "fits a 1 \<Longrightarrow> a + 1 \<noteq> 0"
  using fits_unat [of a 1] by (auto simp: unat_eq_zero dest: arg_cong [where f = unat])

subsection \<open>Invariants of a run\<close>

lemma batch_kept_step:
  assumes "batch_kept b S C s" and "exec E a t c s = Inr (s', ev)"
  shows "batch_kept b S C s'"
proof (cases c)
  case OpenBatch
  then have "fits (id_Batch (currentBatch s)) 1"
      and "id_Batch (currentBatch s') = id_Batch (currentBatch s) + 1"
    using assms(2) by (simp_all add: openBatch_Inr)
  then have "unat (id_Batch (currentBatch s')) = Suc (unat (id_Batch (currentBatch s)))"
    using fits_unat [of "id_Batch (currentBatch s)" 1] by simp
  then show ?thesis
    using assms(1) by (auto simp: batch_kept_def)
qed (use assms in \<open>auto simp: batch_kept_def call_Inr\<close>)

lemma processed_step:
  assumes "processed (decryptionContexts s rid)" and "c \<noteq> RequestPriceDecryption rid"
      and "exec E a t c s = Inr (s', ev)"
  shows "processed (decryptionContexts s' rid)"
  using assms by (cases c) (auto simp: call_Inr)

lemma context_unused_step:
  assumes "context_unused rid s" and "c \<noteq> RequestPriceDecryption rid"
      and "exec E a t c s = Inr (s', ev)"
  shows "context_unused rid s'"
  using assms by (cases c) (auto simp: context_unused_def call_Inr fits_one_nonzero)

lemma paused_step:
  assumes "paused s" and "exec E a t c s = Inr (s', ev)"
  shows "currentBatch s' = currentBatch s
         \<and> lastSubmissionTime s' = lastSubmissionTime s
         \<and> lastDecryptionRequestTime s' = lastDecryptionRequestTime s
         \<and> (\<forall>r. batchId (decryptionContexts s' r) = batchId (decryptionContexts s r)
                \<and> stateHash (decryptionContexts s' r) = stateHash (decryptionContexts s r))"
  using assms by (cases c) (auto simp: call_Inr)

subsection \<open>Words of 32 and 256 bits\<close>

lemma unat_ucast_32_256: "unat (ucast (x :: uint32) :: uint256) = unat x"
proof -
  have "unat x < 2 ^ 32"
    using unsigned_less [of x, where 'a = nat] by simp
  also have "(2 :: nat) ^ 32 \<le> 2 ^ 256"
    by simp
  finally show ?thesis
    by (simp add: unsigned_ucast_eq take_bit_nat_eq_self)
qed

lemma ucast_32_256_32: "(ucast (ucast (x :: uint32) :: uint256) :: uint32) = x"
  by (simp add: ucast_down_ucast_id is_down)

lemma unat_ucast_256_32:
  "unat (c :: uint256) < 2 ^ 32 \<Longrightarrow> unat (ucast c :: uint32) = unat c"
  by (simp add: unsigned_ucast_eq take_bit_nat_eq_self)

lemma unat_sum_list_32:
  "unat (sum_list ws :: uint32) = sum_list (map unat ws) mod 2 ^ 32"
proof (induction ws)
  case Nil
  then show ?case by simp
next
  case (Cons w ws)
  then show ?case by (simp add: unat_word_ariths mod_simps)
qed

subsection \<open>A sequence of submissions\<close>

lemma submissions_shape:
  assumes "submissions E subs s = Inr s'"
  shows "id_Batch (currentBatch s') = id_Batch (currentBatch s)
         \<and> open (currentBatch s') = open (currentBatch s)
         \<and> unat (count (currentBatch s')) = unat (count (currentBatch s)) + length subs
         \<and> (subs \<noteq> [] \<longrightarrow> unat (priceSum (currentBatch s')) < 2 ^ 32)"
  using assms
proof (induction subs arbitrary: s)
  case Nil
  then show ?case by simp
next
  case (Cons sub rest)
  obtain a t x where sub: "sub = (a, t, x)" by (cases sub)
  from Cons.prems sub obtain s1 ev
    where st: "submitEncryptedPrice E a t x s = Inr (s1, ev)"
      and rest: "submissions E rest s1 = Inr s'"
    by (auto split: sum.splits)
  from st have f: "fits (count (currentBatch s)) 1"
    and b1: "currentBatch s1 = (currentBatch s)\<lparr>
                priceSum := ucast (FHE_toUint32 E
                   (FHE_add E (FHE_asEuint32 E (priceSum (currentBatch s))) x)),
                count := count (currentBatch s) + 1\<rparr>"
    by (simp_all add: submit_Inr)
  have cnt1: "unat (count (currentBatch s1)) = Suc (unat (count (currentBatch s)))"
    using fits_unat [OF f] b1 by simp
  have small1: "unat (priceSum (currentBatch s1)) < 2 ^ 32"
    using unsigned_less [of "FHE_toUint32 E
        (FHE_add E (FHE_asEuint32 E (priceSum (currentBatch s))) x)", where 'a = nat]
    by (simp add: b1 unat_ucast_32_256)
  have ih: "id_Batch (currentBatch s') = id_Batch (currentBatch s1)
         \<and> open (currentBatch s') = open (currentBatch s1)
         \<and> unat (count (currentBatch s')) = unat (count (currentBatch s1)) + length rest
         \<and> (rest \<noteq> [] \<longrightarrow> unat (priceSum (currentBatch s')) < 2 ^ 32)"
    by (rule Cons.IH [OF rest])
  have small: "unat (priceSum (currentBatch s')) < 2 ^ 32"
  proof (cases rest)
    case Nil
    then show ?thesis using rest small1 by simp
  next
    case (Cons r rs)
    then show ?thesis using ih by simp
  qed
  have same1: "id_Batch (currentBatch s1) = id_Batch (currentBatch s)"
      "open (currentBatch s1) = open (currentBatch s)"
    using b1 by simp_all
  show ?case
    using ih same1 cnt1 small by (simp add: sub)
qed

lemma submissions_sum:
  assumes "homomorphic E dec" and "submissions E subs s = Inr s'"
  shows "(ucast (priceSum (currentBatch s')) :: uint32)
           = ucast (priceSum (currentBatch s))
             + sum_list (map (\<lambda>(a, t, x). dec (FHE_toBytes32 E x)) subs)"
  using assms(2)
proof (induction subs arbitrary: s)
  case Nil
  then show ?case by simp
next
  case (Cons sub rest)
  obtain a t x where sub: "sub = (a, t, x)" by (cases sub)
  from Cons.prems sub obtain s1 ev
    where st: "submitEncryptedPrice E a t x s = Inr (s1, ev)"
      and rest: "submissions E rest s1 = Inr s'"
    by (auto split: sum.splits)
  from st have b1: "priceSum (currentBatch s1) = ucast (FHE_toUint32 E
                   (FHE_add E (FHE_asEuint32 E (priceSum (currentBatch s))) x))"
    by (simp add: submit_Inr)
  have sum1: "priceSum (currentBatch s1)
               = ucast (ucast (priceSum (currentBatch s)) + dec (FHE_toBytes32 E x) :: uint32)"
    using assms(1) b1 by (simp add: homomorphic_def)
  have "(ucast (priceSum (currentBatch s')) :: uint32)
          = ucast (priceSum (currentBatch s1))
            + sum_list (map (\<lambda>(a, t, x). dec (FHE_toBytes32 E x)) rest)"
    by (rule Cons.IH [OF rest])
  then show ?case
    by (simp add: sub sum1 ucast_32_256_32 add.assoc)
qed

lemma samples_unat:
  "samples E dec subs = map unat (map (\<lambda>(a, t, x). dec (FHE_toBytes32 E x)) subs)"
  by (simp add: samples_def split_def)

text \<open>
  What \<^verbatim>\<open>requestPriceDecryption\<close> hands to the oracle after a batch of \<open>n\<close>
  submissions: one ciphertext, whose plaintext is the stored sum, a value below
  \<open>2 ^ 32\<close>, divided by \<open>n\<close>. This needs of the library only that \<^verbatim>\<open>asEuint32\<close> and
  \<^verbatim>\<open>div\<close> are faithful, nothing of \<^verbatim>\<open>add\<close>.
\<close>

lemma requested_quotient:
  assumes enc: "\<forall>w. dec (FHE_toBytes32 E (FHE_asEuint32 E w)) = (ucast w :: uint32)"
      and dv: "\<forall>x y. dec (FHE_toBytes32 E y) \<noteq> 0 \<longrightarrow>
                dec (FHE_toBytes32 E (FHE_div E x y))
                  = dec (FHE_toBytes32 E x) div dec (FHE_toBytes32 E y)"
      and opened: "openBatch a0 s0 = Inr (s1, e1)"
      and subs: "submissions E subs s1 = Inr s2"
      and n: "0 < length subs" "length subs < 2 ^ 32"
      and closed: "closeBatch a3 s2 = Inr (s3, e3)"
      and req: "requestPriceDecryption E a4 t4 rid s3 = Inr (s4, e4, cts)"
  shows "\<exists>ct. cts = [ct]
           \<and> unat (dec ct) = unat (priceSum (currentBatch s2)) div length subs
           \<and> unat (priceSum (currentBatch s2)) < 2 ^ 32
           \<and> currentBatch s4 = (currentBatch s2)\<lparr>open := False\<rparr>
           \<and> id_Batch (currentBatch s2) = id_Batch (currentBatch s1)"
proof -
  have b1: "count (currentBatch s1) = 0"
    using opened by (simp add: openBatch_Inr)
  note shape = submissions_shape [OF subs]
  have cnt2: "unat (count (currentBatch s2)) = length subs"
    using shape b1 by simp
  have small: "unat (priceSum (currentBatch s2)) < 2 ^ 32"
    using shape n(1) by auto
  have b3: "currentBatch s3 = (currentBatch s2)\<lparr>open := False\<rparr>"
    using closed by (simp add: closeBatch_Inr)
  have b4: "currentBatch s4 = currentBatch s3"
    using req by (simp add: request_Inr)
  let ?ct = "FHE_toBytes32 E (FHE_div E (FHE_asEuint32 E (priceSum (currentBatch s2)))
                  (FHE_asEuint32 E (count (currentBatch s2))))"
  have cts: "cts = [?ct]"
    using req by (simp add: request_Inr b3)
  have cnt32: "unat (ucast (count (currentBatch s2)) :: uint32) = length subs"
    using unat_ucast_256_32 [of "count (currentBatch s2)"] cnt2 n(2) by simp
  then have nz: "(ucast (count (currentBatch s2)) :: uint32) \<noteq> 0"
    using n(1) by auto
  have e1: "dec (FHE_toBytes32 E (FHE_asEuint32 E (priceSum (currentBatch s2))))
              = ucast (priceSum (currentBatch s2))"
    and e2: "dec (FHE_toBytes32 E (FHE_asEuint32 E (count (currentBatch s2))))
              = ucast (count (currentBatch s2))"
    using enc by blast+
  have "dec (FHE_toBytes32 E (FHE_asEuint32 E (count (currentBatch s2)))) \<noteq> 0"
    using nz by (simp add: e2)
  then have "dec ?ct = dec (FHE_toBytes32 E (FHE_asEuint32 E (priceSum (currentBatch s2))))
                div dec (FHE_toBytes32 E (FHE_asEuint32 E (count (currentBatch s2))))"
    using dv by blast
  then have "dec ?ct
               = ucast (priceSum (currentBatch s2)) div ucast (count (currentBatch s2))"
    by (simp only: e1 e2)
  then have "unat (dec ?ct) = unat (priceSum (currentBatch s2)) div length subs"
    using unat_ucast_256_32 [OF small] by (simp add: unat_div cnt32)
  then show ?thesis
    using cts small b3 b4 shape by simp
qed

text \<open>So the revealed average never exceeds \<open>(2 ^ 32 - 1) div n\<close>, whatever the library
  does in \<^verbatim>\<open>add\<close>: the contract stores the sum through \<^verbatim>\<open>toUint32\<close>.\<close>

lemma requested_quotient_bound:
  assumes enc: "\<forall>w. dec (FHE_toBytes32 E (FHE_asEuint32 E w)) = (ucast w :: uint32)"
      and dv: "\<forall>x y. dec (FHE_toBytes32 E y) \<noteq> 0 \<longrightarrow>
                dec (FHE_toBytes32 E (FHE_div E x y))
                  = dec (FHE_toBytes32 E x) div dec (FHE_toBytes32 E y)"
      and opened: "openBatch a0 s0 = Inr (s1, e1)"
      and subs: "submissions E subs s1 = Inr s2"
      and n: "0 < length subs" "length subs < 2 ^ 32"
      and closed: "closeBatch a3 s2 = Inr (s3, e3)"
      and req: "requestPriceDecryption E a4 t4 rid s3 = Inr (s4, e4, cts)"
  shows "\<exists>ct. cts = [ct] \<and> unat (dec ct) \<le> (2 ^ 32 - 1) div length subs"
proof -
  from requested_quotient [OF enc dv opened subs n closed req]
  obtain ct where ct: "cts = [ct]"
      "unat (dec ct) = unat (priceSum (currentBatch s2)) div length subs"
      "unat (priceSum (currentBatch s2)) < 2 ^ 32"
    by blast
  have "unat (priceSum (currentBatch s2)) \<le> 2 ^ 32 - 1"
    using ct(3) by simp
  then have "unat (priceSum (currentBatch s2)) div length subs \<le> (2 ^ 32 - 1) div length subs"
    by (rule div_le_mono)
  then show ?thesis
    using ct by simp
qed

subsection \<open>Facts about the concrete runs\<close>

lemmas scen_defs = s_closed_def s_requested_def reopened_def s_fresh_long_def s_paused_def
  s_open_def s_max_cooldown_def s_finalized_def s_requested_paused_def later_calls_def
  scenario_subs_def s_registered_def s_opened_def s_submitted_def s_wrapped_def
  s_wrapped_closed_def wrapping_subs_def s_count_full_def s_count_full_written_def
  s_requested_max_cooldown_def

lemma s_closed_batch:
  "currentBatch s_closed = \<lparr> id_Batch = 1, open = False, priceSum = 300, count = 2 \<rparr>"
  by (simp add: s_closed_def eval_defs)

lemma request_ok:
  "requestPriceDecryption clear_engine 11 1700000002 1 s_closed
     = Inr (s_requested, DecryptionRequested 1 1 49524, [150])"
  by (simp add: s_requested_def s_closed_def eval_defs)

lemma abi_decode_150: "abi_decode_uint256 cleartext150 = Inr 150"
  by (simp add: abi_decode_uint256_def be_uint256_def cleartext150_def)

lemma abi_decode_0: "abi_decode_uint256 cleartext0 = Inr 0"
  by (simp add: abi_decode_uint256_def be_uint256_def cleartext0_def)

lemma callback_ok:
  "myCallback clear_engine 666 1700000050 1 cleartext150 cleartext150 s_requested
     = Inr (s_finalized, DecryptionCompleted 1 1 150)"
  by (simp add: scen_defs eval_defs abi_decode_150)

lemma homomorphic_clear: "homomorphic clear_engine ucast"
  by (simp add: homomorphic_def clear_engine_def ucast_32_256_32)

section \<open>The claims\<close>

subsection \<open>C1: a callback after the batch has changed\<close>

text \<open>
  Claim C1 says that a callback arriving after the batch's \<^verbatim>\<open>priceSum\<close> or \<^verbatim>\<open>count\<close>
  has changed fails with \<^verbatim>\<open>StateMismatch\<close>. In the contract the aggregate of a closed
  batch can only change through \<^verbatim>\<open>openBatch\<close>, which increments the batch id, and
  \<^verbatim>\<open>myCallback\<close> compares the batch id before it recomputes the hash. So, for every
  successful request, every sequence of later transactions after which the context
  stored under the request id still names the batch of the request, and every caller
  and payload: if \<^verbatim>\<open>priceSum\<close> or \<^verbatim>\<open>count\<close> of the current batch differs from its
  value at the request, \<^verbatim>\<open>myCallback\<close> reverts with \<^verbatim>\<open>ReplayAttempt\<close> (the request was
  already finalised) or with \<^verbatim>\<open>InvalidBatchState\<close>, having written nothing; it never
  finalises, and it never reaches \<^verbatim>\<open>StateMismatch\<close>.
\<close>

theorem stale_callback_rejected:
  assumes req: "requestPriceDecryption E a t rid s0 = Inr (s1, ev, cts)"
      and ctx: "batchId (decryptionContexts (run E s1 txs) rid) = id_Batch (currentBatch s1)"
      and drift: "priceSum (currentBatch (run E s1 txs)) \<noteq> priceSum (currentBatch s1)
                  \<or> count (currentBatch (run E s1 txs)) \<noteq> count (currentBatch s1)"
  shows "myCallback E a' t' rid c p (run E s1 txs) = Inl (ReplayAttempt, run E s1 txs)
         \<or> myCallback E a' t' rid c p (run E s1 txs) = Inl (InvalidBatchState, run E s1 txs)"
proof -
  let ?b = "id_Batch (currentBatch s1)"
  let ?S = "priceSum (currentBatch s1)"
  let ?C = "count (currentBatch s1)"
  have "\<not> open (currentBatch s1)"
    using req by (auto simp: request_Inr)
  then have "batch_kept ?b ?S ?C s1"
    by (simp add: batch_kept_def)
  moreover have "\<forall>s a t c s' ev. batch_kept ?b ?S ?C s \<and> True \<and> exec E a t c s = Inr (s', ev)
                   \<longrightarrow> batch_kept ?b ?S ?C s'"
    using batch_kept_step by blast
  ultimately have "batch_kept ?b ?S ?C (run E s1 txs)"
    using run_invariant [of "batch_kept ?b ?S ?C" "\<lambda>_. True" E txs s1] by simp
  with drift have "unat ?b < unat (id_Batch (currentBatch (run E s1 txs)))"
    by (auto simp: batch_kept_def)
  then have "id_Batch (currentBatch (run E s1 txs))
               \<noteq> batchId (decryptionContexts (run E s1 txs) rid)"
    using ctx by auto
  then show ?thesis
    using myCallback_replay [of "run E s1 txs" rid E a' t' c p]
      myCallback_batch_state [of "run E s1 txs" rid E a' t' c p]
    by blast
qed

text \<open>The theorem at the concrete run: batch 1 is requested, then batch 2 is opened,
  receives 500 and is closed.\<close>

theorem stale_callback_rejected_witness:
  "requestPriceDecryption clear_engine 11 1700000002 1 s_closed
     = Inr (s_requested, DecryptionRequested 1 1 49524, [150])
   \<and> batchId (decryptionContexts (run clear_engine s_requested reopened) 1)
       = id_Batch (currentBatch s_requested)
   \<and> priceSum (currentBatch (run clear_engine s_requested reopened))
       \<noteq> priceSum (currentBatch s_requested)
   \<and> (myCallback clear_engine 99 1700000200 1 [] [] (run clear_engine s_requested reopened)
         = Inl (ReplayAttempt, run clear_engine s_requested reopened)
      \<or> myCallback clear_engine 99 1700000200 1 [] [] (run clear_engine s_requested reopened)
         = Inl (InvalidBatchState, run clear_engine s_requested reopened))"
proof -
  have h1: "requestPriceDecryption clear_engine 11 1700000002 1 s_closed
     = Inr (s_requested, DecryptionRequested 1 1 49524, [150])"
    by (rule request_ok)
  have h2: "batchId (decryptionContexts (run clear_engine s_requested reopened) 1)
       = id_Batch (currentBatch s_requested)"
    by (simp add: reopened_def s_requested_def s_closed_def eval_defs)
  have h3: "priceSum (currentBatch (run clear_engine s_requested reopened))
       \<noteq> priceSum (currentBatch s_requested)"
    by (simp add: reopened_def s_requested_def s_closed_def eval_defs)
  show ?thesis
    using h1 h2 h3 stale_callback_rejected [OF h1 h2 disjI1 [OF h3], of 99 1700000200 "[]" "[]"]
    by blast
qed

text \<open>C1 as stated fails on that run: the aggregate and the recomputed hash differ
  from the request's, and the callback reverts with \<^verbatim>\<open>InvalidBatchState\<close>, not with
  \<^verbatim>\<open>StateMismatch\<close>.\<close>

theorem stale_callback_counterexample:
  "priceSum (currentBatch (run clear_engine s_requested reopened))
       \<noteq> priceSum (currentBatch s_requested)
   \<and> commitment clear_engine (currentBatch (run clear_engine s_requested reopened))
       \<noteq> stateHash (decryptionContexts (run clear_engine s_requested reopened) 1)
   \<and> myCallback clear_engine 99 1700000200 1 [] [] (run clear_engine s_requested reopened)
         = Inl (InvalidBatchState, run clear_engine s_requested reopened)
   \<and> snd (transact clear_engine (run clear_engine s_requested reopened)
             (99, 1700000200, MyCallback 1 [] []))
         \<noteq> Reverted StateMismatch"
  by (simp add: reopened_def s_requested_def s_closed_def eval_defs commitment_def
      averageHandle_def)

subsection \<open>C2: a request is finalised at most once\<close>

text \<open>
  Claim C2: once \<^verbatim>\<open>myCallback\<close> has succeeded for a request id, the context stored
  under that id is marked processed, and after any sequence of later transactions,
  successful or reverted, every further \<^verbatim>\<open>myCallback\<close> with the same request id reverts
  with \<^verbatim>\<open>ReplayAttempt\<close>, whoever calls it and whatever cleartexts and proof it carries.
  Request ids are issued by the oracle; the later transactions are those in which the
  oracle does not issue the same id again.
\<close>

theorem finalize_once:
  assumes ok: "myCallback E a t rid c p s = Inr (s1, ev)"
      and fresh: "list_all (\<lambda>tx. snd (snd tx) \<noteq> RequestPriceDecryption rid) txs"
  shows "processed (decryptionContexts s1 rid)
         \<and> myCallback E a' t' rid c' p' (run E s1 txs) = Inl (ReplayAttempt, run E s1 txs)"
proof -
  have p1: "processed (decryptionContexts s1 rid)"
    using ok by (simp add: myCallback_Inr)
  have "\<forall>s a t c s' ev. processed (decryptionContexts s rid)
          \<and> c \<noteq> RequestPriceDecryption rid \<and> exec E a t c s = Inr (s', ev)
          \<longrightarrow> processed (decryptionContexts s' rid)"
    using processed_step by blast
  then have "processed (decryptionContexts (run E s1 txs) rid)"
    using run_invariant [of "\<lambda>s. processed (decryptionContexts s rid)"
        "\<lambda>c. c \<noteq> RequestPriceDecryption rid" E txs s1] fresh p1
    by (simp add: list_all_iff)
  then show ?thesis
    using p1 by (simp add: myCallback_replay)
qed

text \<open>The theorem at the concrete run: after the first callback a second request, a new batch
  and a callback by another caller with another payload.\<close>

theorem finalize_once_witness:
  "myCallback clear_engine 666 1700000050 1 cleartext150 cleartext150 s_requested
     = Inr (s_finalized, DecryptionCompleted 1 1 150)
   \<and> list_all (\<lambda>tx. snd (snd tx) \<noteq> RequestPriceDecryption 1) later_calls
   \<and> processed (decryptionContexts s_finalized 1)
   \<and> myCallback clear_engine 777 1700000200 1 [] [1, 2] (run clear_engine s_finalized later_calls)
       = Inl (ReplayAttempt, run clear_engine s_finalized later_calls)"
proof -
  have f: "list_all (\<lambda>tx. snd (snd tx) \<noteq> RequestPriceDecryption 1) later_calls"
    by (simp add: later_calls_def)
  show ?thesis
    using callback_ok f finalize_once [OF callback_ok f, of 777 1700000200 "[]" "[1, 2]"]
    by simp
qed

subsection \<open>C3: the revealed average\<close>

text \<open>
  Claim C3 says that the final price equals the sum of the submitted values divided
  by their number. The contract keeps the sum as the \<^verbatim>\<open>uint32\<close> that \<^verbatim>\<open>toUint32\<close>
  returns, so the sum is taken modulo \<open>2 ^ 32\<close>. For a library that is homomorphic in
  the sense above: after \<^verbatim>\<open>openBatch\<close>, a non-empty sequence of fewer than \<open>2 ^ 32\<close>
  successful submissions, \<^verbatim>\<open>closeBatch\<close>, a successful request, which hands the
  ciphertexts \<open>cts\<close> to the oracle, and a successful callback whose cleartext is the
  plaintext of what was handed to the oracle: there is exactly one ciphertext in
  \<open>cts\<close>, the event emitted is \<^verbatim>\<open>DecryptionCompleted\<close> for the request id and the batch
  opened, and its final price is the sum of the submitted plaintexts modulo \<open>2 ^ 32\<close>,
  divided by their number and rounded down.
\<close>

theorem revealed_average:
  assumes hom: "homomorphic E dec"
      and opened: "openBatch a0 s0 = Inr (s1, e1)"
      and subs: "submissions E subs s1 = Inr s2"
      and n: "0 < length subs" "length subs < 2 ^ 32"
      and closed: "closeBatch a3 s2 = Inr (s3, e3)"
      and req: "requestPriceDecryption E a4 t4 rid s3 = Inr (s4, e4, cts)"
      and honest: "list_all (\<lambda>ct. abi_decode_uint256 c = Inr (ucast (dec ct))) cts"
      and cb: "myCallback E a5 t5 rid c p s4 = Inr (s5, e5)"
  shows "\<exists>ct v. cts = [ct]
           \<and> e5 = DecryptionCompleted rid (id_Batch (currentBatch s1)) v
           \<and> unat v = (sum_list (samples E dec subs) mod 2 ^ 32) div length subs"
proof -
  have enc: "\<forall>w. dec (FHE_toBytes32 E (FHE_asEuint32 E w)) = (ucast w :: uint32)"
    and dv: "\<forall>x y. dec (FHE_toBytes32 E y) \<noteq> 0 \<longrightarrow>
                dec (FHE_toBytes32 E (FHE_div E x y))
                  = dec (FHE_toBytes32 E x) div dec (FHE_toBytes32 E y)"
    using hom by (simp_all add: homomorphic_def)
  from requested_quotient [OF enc dv opened subs n closed req]
  obtain ct where ct: "cts = [ct]"
      and q: "unat (dec ct) = unat (priceSum (currentBatch s2)) div length subs"
      and small: "unat (priceSum (currentBatch s2)) < 2 ^ 32"
      and b4: "currentBatch s4 = (currentBatch s2)\<lparr>open := False\<rparr>"
      and id2: "id_Batch (currentBatch s2) = id_Batch (currentBatch s1)"
    by blast
  have "priceSum (currentBatch s1) = 0"
    using opened by (simp add: openBatch_Inr)
  then have "(ucast (priceSum (currentBatch s2)) :: uint32)
               = sum_list (map (\<lambda>(a, t, x). dec (FHE_toBytes32 E x)) subs)"
    using submissions_sum [OF hom subs] by simp
  then have "unat (ucast (priceSum (currentBatch s2)) :: uint32)
               = sum_list (samples E dec subs) mod 2 ^ 32"
    by (simp only: unat_sum_list_32 samples_unat)
  then have total: "unat (priceSum (currentBatch s2))
                      = sum_list (samples E dec subs) mod 2 ^ 32"
    using unat_ucast_256_32 [OF small] by simp
  from cb obtain v where v: "abi_decode_uint256 c = Inr v"
      and e5: "e5 = DecryptionCompleted rid (id_Batch (currentBatch s4)) v"
    by (auto simp: myCallback_Inr)
  have "v = ucast (dec ct)"
    using honest ct v by simp
  then have "unat v = unat (dec ct)"
    by (simp only: unat_ucast_32_256)
  then have "unat v = (sum_list (samples E dec subs) mod 2 ^ 32) div length subs"
    using q total by simp
  then show ?thesis
    using ct e5 b4 id2 by simp
qed

text \<open>The theorem at the concrete run: 100 and 200 give 150.\<close>

theorem revealed_average_witness:
  "homomorphic clear_engine ucast
   \<and> openBatch 13 s_registered = Inr (s_opened, BatchOpened 1 :: uint32 event)
   \<and> submissions clear_engine scenario_subs s_opened = Inr s_submitted
   \<and> 0 < length scenario_subs \<and> length scenario_subs < 2 ^ 32
   \<and> closeBatch 13 s_submitted = Inr (s_closed, BatchClosed 1 300 2 :: uint32 event)
   \<and> requestPriceDecryption clear_engine 11 1700000002 1 s_closed
        = Inr (s_requested, DecryptionRequested 1 1 49524, [150])
   \<and> list_all (\<lambda>ct. abi_decode_uint256 cleartext150 = Inr (ucast (ucast ct :: uint32)))
         [150 :: bytes32]
   \<and> myCallback clear_engine 666 1700000050 1 cleartext150 cleartext150 s_requested
        = Inr (s_finalized, DecryptionCompleted 1 1 150)
   \<and> (\<exists>ct v. [150] = [ct]
          \<and> DecryptionCompleted 1 1 150
              = (DecryptionCompleted 1 (id_Batch (currentBatch s_opened)) v :: uint32 event)
          \<and> unat v = (sum_list (samples clear_engine ucast scenario_subs) mod 2 ^ 32)
                        div length scenario_subs)
   \<and> samples clear_engine ucast scenario_subs = [100, 200]"
proof -
  have h1: "openBatch 13 s_registered = Inr (s_opened, BatchOpened 1 :: uint32 event)"
    by (simp add: scen_defs eval_defs)
  have h2: "submissions clear_engine scenario_subs s_opened = Inr s_submitted"
    by (simp add: scen_defs eval_defs)
  have h3: "0 < length scenario_subs" "length scenario_subs < 2 ^ 32"
    by (simp_all add: scenario_subs_def)
  have h4: "closeBatch 13 s_submitted = Inr (s_closed, BatchClosed 1 300 2 :: uint32 event)"
    by (simp add: scen_defs eval_defs)
  have h5: "list_all (\<lambda>ct. abi_decode_uint256 cleartext150
                               = Inr (ucast (ucast ct :: uint32))) [150 :: bytes32]"
    by (simp add: abi_decode_150)
  have h6: "samples clear_engine ucast scenario_subs = [100, 200]"
    by (simp add: samples_def scenario_subs_def clear_engine_def)
  show ?thesis
    using homomorphic_clear h1 h2 h3 h4 request_ok h5 callback_ok h6
      revealed_average [OF homomorphic_clear h1 h2 h3 h4 request_ok h5 callback_ok]
    by simp
qed

text \<open>C3 as stated fails when the sum does not fit 32 bits: the plaintexts 4294967295
  and 1 are both accepted, the stored sum is 0, the ciphertext handed to the oracle
  has the plaintext 0 and the final price is 0, not 2147483648. By the bound above no
  library with a faithful \<^verbatim>\<open>asEuint32\<close> and \<^verbatim>\<open>div\<close> can reveal more than 2147483647 for
  two submissions.\<close>

theorem revealed_average_counterexample:
  "samples clear_engine ucast wrapping_subs = [4294967295, 1]
   \<and> submissions clear_engine wrapping_subs s_opened
        = Inr (run clear_engine s_opened
                 [(10, 1700000000, SubmitEncryptedPrice 4294967295),
                  (12, 1700000000, SubmitEncryptedPrice 1)])
   \<and> currentBatch s_wrapped_closed
        = \<lparr> id_Batch = 1, open = False, priceSum = 0, count = 2 \<rparr>
   \<and> requestPriceDecryption clear_engine 11 1700000002 1 s_wrapped_closed
        = Inr (s_wrapped, DecryptionRequested 1 1 49374, [0])
   \<and> abi_decode_uint256 cleartext0 = Inr (ucast (ucast (0 :: bytes32) :: uint32))
   \<and> snd (transact clear_engine s_wrapped (666, 1700000050, MyCallback 1 cleartext0 cleartext0))
        = Emitted (DecryptionCompleted 1 1 0)
   \<and> (4294967295 + 1) div 2 \<noteq> (0 :: nat)"
  by (simp add: scen_defs eval_defs abi_decode_0 samples_def)

subsection \<open>C4: a callback for a request id that was never issued\<close>

text \<open>
  Claim C4 says that a callback for an unknown request id fails with a not-found
  condition of its own, before the other checks. The contract has no such check: an
  unknown id reads the zero context, passes the replay check and fails the batch check.
  For every run from the constructor in which no request was issued under an id, every
  \<^verbatim>\<open>myCallback\<close> with that id reverts with \<^verbatim>\<open>InvalidBatchState\<close>, the error of the
  batch-state check.
\<close>

theorem unknown_request_rejected:
  assumes never: "list_all (\<lambda>tx. snd (snd tx) \<noteq> RequestPriceDecryption rid) txs"
  shows "myCallback E a t rid c p (run E (constructor d) txs)
           = Inl (InvalidBatchState, run E (constructor d) txs)"
proof -
  let ?s = "run E (constructor d) txs"
  have "context_unused rid (constructor d)"
    by (simp add: context_unused_def constructor_def)
  moreover have "\<forall>s a t c s' ev. context_unused rid s
          \<and> c \<noteq> RequestPriceDecryption rid \<and> exec E a t c s = Inr (s', ev)
          \<longrightarrow> context_unused rid s'"
    using context_unused_step by blast
  ultimately have u: "context_unused rid ?s"
    using run_invariant [of "context_unused rid" "\<lambda>c. c \<noteq> RequestPriceDecryption rid"
        E txs "constructor d"] never
    by (simp add: list_all_iff)
  then have "\<not> processed (decryptionContexts ?s rid)"
    by (simp add: context_unused_def)
  moreover have "id_Batch (currentBatch ?s) \<noteq> batchId (decryptionContexts ?s rid)
       \<or> open (currentBatch ?s) \<or> count (currentBatch ?s) = 0"
    using u by (auto simp: context_unused_def)
  ultimately show ?thesis
    by (rule myCallback_batch_state)
qed

text \<open>The theorem at a concrete run that holds no request under id 7: its one request,
  under id 2, is sent before any batch exists and reverts.\<close>

theorem unknown_request_rejected_witness:
  "list_all (\<lambda>tx. snd (snd tx) \<noteq> RequestPriceDecryption 7) later_calls
   \<and> myCallback clear_engine 99 1700000300 7 cleartext150 cleartext150
        (run clear_engine (constructor 13) later_calls)
       = Inl (InvalidBatchState, run clear_engine (constructor 13) later_calls)"
proof -
  have n: "list_all (\<lambda>tx. snd (snd tx) \<noteq> RequestPriceDecryption 7) later_calls"
    by (simp add: later_calls_def)
  show ?thesis
    using n unknown_request_rejected [OF n, of clear_engine 99 1700000300
        cleartext150 cleartext150 13]
    by simp
qed

text \<open>C4 as stated fails: the never-issued id 7 and the issued but superseded id 1 get the
  same error, that of the batch-state check.\<close>

theorem unknown_request_counterexample:
  "decryptionContexts (run clear_engine s_requested reopened) 7
     = \<lparr> batchId = 0, stateHash = 0, processed = False \<rparr>
   \<and> myCallback clear_engine 99 1700000300 7 cleartext150 cleartext150
        (run clear_engine s_requested reopened)
       = Inl (InvalidBatchState, run clear_engine s_requested reopened)
   \<and> batchId (decryptionContexts (run clear_engine s_requested reopened) 1) = 1
   \<and> myCallback clear_engine 99 1700000300 1 cleartext150 cleartext150
        (run clear_engine s_requested reopened)
       = Inl (InvalidBatchState, run clear_engine s_requested reopened)"
  by (simp add: scen_defs eval_defs)

subsection \<open>C5: the order of the checks of a submission\<close>

text \<open>
  Claim C5 says that \<^verbatim>\<open>submitEncryptedPrice\<close> checks role, pause, batch state and
  cooldown in that order. The three modifiers run before the body, so the order is role,
  pause, cooldown, batch state, and the cooldown modifier first adds the caller's last
  submission time and \<^verbatim>\<open>cooldownSeconds\<close> with checked arithmetic. For every call: a
  caller that is not a provider gets \<^verbatim>\<open>NotProvider\<close>; a provider while paused gets
  \<^verbatim>\<open>PausedError\<close>; a provider, not paused, for whom that sum overflows gets
  \<^verbatim>\<open>Panic(0x11)\<close>; a provider, not paused, at a time before that sum gets
  \<^verbatim>\<open>CooldownActive\<close>, whether the batch is open or not; and a provider, not paused, at
  or after that sum, with the batch not open, gets \<^verbatim>\<open>BatchClosedOrNonExistent\<close>. In
  each case the storage is untouched.
\<close>

theorem submit_check_order:
  "(\<not> isProvider s a \<longrightarrow> submitEncryptedPrice E a now x s = Inl (NotProvider, s))
   \<and> (isProvider s a \<and> paused s
        \<longrightarrow> submitEncryptedPrice E a now x s = Inl (PausedError, s))
   \<and> (isProvider s a \<and> \<not> paused s
        \<and> \<not> fits (lastSubmissionTime s a) (cooldownSeconds s)
        \<longrightarrow> submitEncryptedPrice E a now x s = Inl (Panic 17, s))
   \<and> (isProvider s a \<and> \<not> paused s
        \<and> fits (lastSubmissionTime s a) (cooldownSeconds s)
        \<and> now < lastSubmissionTime s a + cooldownSeconds s
        \<longrightarrow> submitEncryptedPrice E a now x s = Inl (CooldownActive, s))
   \<and> (isProvider s a \<and> \<not> paused s
        \<and> fits (lastSubmissionTime s a) (cooldownSeconds s)
        \<and> lastSubmissionTime s a + cooldownSeconds s \<le> now
        \<and> \<not> open (currentBatch s)
        \<longrightarrow> submitEncryptedPrice E a now x s = Inl (BatchClosedOrNonExistent, s))"
  by (auto simp: submitEncryptedPrice_def mod_defs checked_add_def)

text \<open>The theorem at five concrete calls, one for each case.\<close>

theorem submit_check_order_witness:
  "(\<not> isProvider (constructor 13) 10
      \<and> submitEncryptedPrice clear_engine 10 1700000000 100 (constructor 13)
           = Inl (NotProvider, constructor 13))
   \<and> (isProvider s_paused 10 \<and> paused s_paused
      \<and> submitEncryptedPrice clear_engine 10 1700000000 100 s_paused
           = Inl (PausedError, s_paused))
   \<and> (isProvider s_max_cooldown 10 \<and> \<not> paused s_max_cooldown
      \<and> \<not> fits (lastSubmissionTime s_max_cooldown 10) (cooldownSeconds s_max_cooldown)
      \<and> submitEncryptedPrice clear_engine 10 1700000010 100 s_max_cooldown
           = Inl (Panic 17, s_max_cooldown))
   \<and> (isProvider s_closed 10 \<and> \<not> paused s_closed
      \<and> fits (lastSubmissionTime s_closed 10) (cooldownSeconds s_closed)
      \<and> 1700000010 < lastSubmissionTime s_closed 10 + cooldownSeconds s_closed
      \<and> submitEncryptedPrice clear_engine 10 1700000010 100 s_closed
           = Inl (CooldownActive, s_closed))
   \<and> (lastSubmissionTime s_closed 10 + cooldownSeconds s_closed \<le> 1700000100
      \<and> \<not> open (currentBatch s_closed)
      \<and> submitEncryptedPrice clear_engine 10 1700000100 100 s_closed
           = Inl (BatchClosedOrNonExistent, s_closed))"
proof -
  have a: "\<not> isProvider (constructor 13) 10"
    by (simp add: constructor_def)
  have b: "isProvider s_paused 10 \<and> paused s_paused"
    by (simp add: scen_defs eval_defs)
  have p: "isProvider s_max_cooldown 10 \<and> \<not> paused s_max_cooldown
      \<and> \<not> fits (lastSubmissionTime s_max_cooldown 10) (cooldownSeconds s_max_cooldown)"
    by (simp add: scen_defs eval_defs)
  have c: "isProvider s_closed 10 \<and> \<not> paused s_closed
      \<and> fits (lastSubmissionTime s_closed 10) (cooldownSeconds s_closed)
      \<and> 1700000010 < lastSubmissionTime s_closed 10 + cooldownSeconds s_closed"
    by (simp add: scen_defs eval_defs)
  have d: "lastSubmissionTime s_closed 10 + cooldownSeconds s_closed \<le> 1700000100
      \<and> \<not> open (currentBatch s_closed)"
    by (simp add: scen_defs eval_defs)
  have a': "submitEncryptedPrice clear_engine 10 1700000000 100 (constructor 13)
              = Inl (NotProvider, constructor 13)"
    by (rule submit_check_order [THEN conjunct1, THEN mp]) (rule a)
  have b': "submitEncryptedPrice clear_engine 10 1700000000 100 s_paused
              = Inl (PausedError, s_paused)"
    by (rule submit_check_order [THEN conjunct2, THEN conjunct1, THEN mp]) (rule b)
  have p': "submitEncryptedPrice clear_engine 10 1700000010 100 s_max_cooldown
              = Inl (Panic 17, s_max_cooldown)"
    by (rule submit_check_order [THEN conjunct2, THEN conjunct2, THEN conjunct1, THEN mp])
      (rule p)
  have c': "submitEncryptedPrice clear_engine 10 1700000010 100 s_closed
              = Inl (CooldownActive, s_closed)"
    by (rule submit_check_order [THEN conjunct2, THEN conjunct2, THEN conjunct2,
          THEN conjunct1, THEN mp]) (rule c)
  have d': "submitEncryptedPrice clear_engine 10 1700000100 100 s_closed
              = Inl (BatchClosedOrNonExistent, s_closed)"
    by (rule submit_check_order [THEN conjunct2, THEN conjunct2, THEN conjunct2,
          THEN conjunct2, THEN mp]) (simp add: c d)
  show ?thesis
    using a b p c d a' b' p' c' d' by simp
qed

text \<open>C5 as stated fails: a provider that faces both a closed batch and an active cooldown
  gets the cooldown error.\<close>

theorem submit_check_order_counterexample:
  "isProvider s_closed 10 \<and> \<not> paused s_closed
   \<and> \<not> open (currentBatch s_closed)
   \<and> checkSubmissionCooldown s_closed 10 1700000010 = Some CooldownActive
   \<and> submitEncryptedPrice clear_engine 10 1700000010 100 s_closed
        = Inl (CooldownActive, s_closed)
   \<and> snd (transact clear_engine s_closed (10, 1700000010, SubmitEncryptedPrice 100))
        \<noteq> Reverted BatchClosedOrNonExistent"
  by (simp add: scen_defs eval_defs)

subsection \<open>C6: who may call the callback\<close>

text \<open>
  Claim C6 says that only the decryption oracle can invoke \<^verbatim>\<open>myCallback\<close>
  successfully. The function has no check of \<^verbatim>\<open>msg.sender\<close>. Its result is the same for
  every caller and every block timestamp, and for every caller it finalises exactly
  when: the context of the request id is not processed; the current batch has the
  context's batch id, is closed and has a count other than 0; the two handles that
  \<^verbatim>\<open>asEuint32\<close> returns for the sum and the count are initialised; the hash recomputed
  from them equals the context's state hash; \<^verbatim>\<open>FHE.checkSignatures\<close> accepts the request
  id, the cleartexts and the proof; and the cleartexts hold at least 32 bytes. It then
  sets the processed flag of that context, changes nothing else, and emits
  \<^verbatim>\<open>DecryptionCompleted\<close> with the request id, the batch id and the first 32 bytes of
  the cleartexts read as a number.
\<close>

theorem callback_ignores_caller:
  "myCallback E a now r c p s = myCallback E b now' r c p s
   \<and> (myCallback E a now r c p s = Inr (s', ev) \<longleftrightarrow>
        \<not> processed (decryptionContexts s r)
        \<and> id_Batch (currentBatch s) = batchId (decryptionContexts s r)
        \<and> \<not> open (currentBatch s) \<and> count (currentBatch s) \<noteq> 0
        \<and> FHE_isInitialized E (FHE_asEuint32 E (priceSum (currentBatch s)))
        \<and> FHE_isInitialized E (FHE_asEuint32 E (count (currentBatch s)))
        \<and> hashCiphertexts E
              [FHE_toBytes32 E (FHE_div E (FHE_asEuint32 E (priceSum (currentBatch s)))
                                   (FHE_asEuint32 E (count (currentBatch s))))]
            = stateHash (decryptionContexts s r)
        \<and> FHE_checkSignatures E r c p
        \<and> 32 \<le> length c
        \<and> s' = s\<lparr>decryptionContexts := (decryptionContexts s)(r :=
                   (decryptionContexts s r)\<lparr>processed := True\<rparr>)\<rparr>
        \<and> ev = DecryptionCompleted r (id_Batch (currentBatch s)) (be_uint256 (take 32 c)))"
proof -
  have "myCallback E a now r c p s = myCallback E b now' r c p s"
    by (simp add: myCallback_def)
  moreover have "(\<exists>v. abi_decode_uint256 c = Inr v
                      \<and> ev = DecryptionCompleted r (id_Batch (currentBatch s)) v)
                 \<longleftrightarrow> 32 \<le> length c
                      \<and> ev = DecryptionCompleted r (id_Batch (currentBatch s))
                               (be_uint256 (take 32 c))"
    by (auto simp: abi_decode_uint256_def)
  ultimately show ?thesis
    by (simp add: myCallback_Inr commitment_def averageHandle_def) blast
qed

text \<open>The theorem at the concrete run, for the callers 666 and 777.\<close>

theorem callback_ignores_caller_witness:
  "myCallback clear_engine 666 1700000050 1 cleartext150 cleartext150 s_requested
     = myCallback clear_engine 777 1700000099 1 cleartext150 cleartext150 s_requested
   \<and> myCallback clear_engine 666 1700000050 1 cleartext150 cleartext150 s_requested
     = Inr (s_finalized, DecryptionCompleted 1 1 150)
   \<and> \<not> processed (decryptionContexts s_requested 1)
   \<and> id_Batch (currentBatch s_requested) = batchId (decryptionContexts s_requested 1)
   \<and> FHE_checkSignatures clear_engine 1 cleartext150 cleartext150
   \<and> 32 \<le> length cleartext150"
proof -
  have eq: "myCallback clear_engine 666 1700000050 1 cleartext150 cleartext150 s_requested
     = myCallback clear_engine 777 1700000099 1 cleartext150 cleartext150 s_requested"
    by (rule callback_ignores_caller [THEN conjunct1])
  have conds: "\<not> processed (decryptionContexts s_requested 1)
        \<and> id_Batch (currentBatch s_requested) = batchId (decryptionContexts s_requested 1)
        \<and> \<not> open (currentBatch s_requested) \<and> count (currentBatch s_requested) \<noteq> 0
        \<and> FHE_isInitialized clear_engine
              (FHE_asEuint32 clear_engine (priceSum (currentBatch s_requested)))
        \<and> FHE_isInitialized clear_engine
              (FHE_asEuint32 clear_engine (count (currentBatch s_requested)))
        \<and> hashCiphertexts clear_engine
              [FHE_toBytes32 clear_engine (FHE_div clear_engine
                 (FHE_asEuint32 clear_engine (priceSum (currentBatch s_requested)))
                 (FHE_asEuint32 clear_engine (count (currentBatch s_requested))))]
            = stateHash (decryptionContexts s_requested 1)
        \<and> FHE_checkSignatures clear_engine 1 cleartext150 cleartext150
        \<and> 32 \<le> length cleartext150
        \<and> s_finalized = s_requested\<lparr>decryptionContexts :=
              (decryptionContexts s_requested)(1 :=
                 (decryptionContexts s_requested 1)\<lparr>processed := True\<rparr>)\<rparr>
        \<and> DecryptionCompleted 1 1 150
            = (DecryptionCompleted 1 (id_Batch (currentBatch s_requested))
                 (be_uint256 (take 32 cleartext150)) :: uint32 event)"
    by (rule callback_ignores_caller [THEN conjunct2, THEN iffD1]) (rule callback_ok)
  show ?thesis
  proof (intro conjI)
    show "myCallback clear_engine 666 1700000050 1 cleartext150 cleartext150 s_requested
     = myCallback clear_engine 777 1700000099 1 cleartext150 cleartext150 s_requested"
      by (rule eq)
    show "myCallback clear_engine 666 1700000050 1 cleartext150 cleartext150 s_requested
     = Inr (s_finalized, DecryptionCompleted 1 1 150)"
      by (rule callback_ok)
    show "\<not> processed (decryptionContexts s_requested 1)"
      using conds by blast
    show "id_Batch (currentBatch s_requested) = batchId (decryptionContexts s_requested 1)"
      using conds by blast
    show "FHE_checkSignatures clear_engine 1 cleartext150 cleartext150"
      using conds by blast
    show "32 \<le> length cleartext150"
      using conds by blast
  qed
qed

text \<open>C6 as stated fails: two different callers can each finalise the same pending request
  with the same cleartexts and proof, and at most one of them is the oracle.\<close>

theorem callback_caller_counterexample:
  "(666 :: address) \<noteq> 777
   \<and> myCallback clear_engine 666 1700000050 1 cleartext150 cleartext150 s_requested
     = Inr (s_finalized, DecryptionCompleted 1 1 150)
   \<and> myCallback clear_engine 777 1700000050 1 cleartext150 cleartext150 s_requested
     = Inr (s_finalized, DecryptionCompleted 1 1 150)
   \<and> processed (decryptionContexts s_finalized 1)"
  by (simp add: scen_defs eval_defs abi_decode_150)

subsection \<open>C7: what the pause flag gates\<close>

text \<open>
  Claim C7 says that while paused every state-mutating operation fails with
  \<^verbatim>\<open>PausedError\<close> and nothing but \<^verbatim>\<open>unpause\<close> changes the batch, the timers or a
  decryption context. In the contract \<^verbatim>\<open>whenNotPaused\<close> guards \<^verbatim>\<open>openBatch\<close>,
  \<^verbatim>\<open>closeBatch\<close>, \<^verbatim>\<open>submitEncryptedPrice\<close> and \<^verbatim>\<open>requestPriceDecryption\<close> only. While
  paused these four revert, with \<^verbatim>\<open>PausedError\<close> unless the role modifier, which runs
  first, has already reverted with \<^verbatim>\<open>NotOwner\<close> or \<^verbatim>\<open>NotProvider\<close>; and no transaction
  of any kind changes the batch record, a cooldown timer, or the batch id and state hash
  of a decryption context. The owner's administrative functions are not gated by the
  flag.
\<close>

theorem paused_gates:
  assumes "paused s"
  shows "openBatch a s = (Inl (if a \<noteq> owner s then NotOwner else PausedError, s)
                            :: error \<times> storage + storage \<times> 'h event)
       \<and> closeBatch a s = (Inl (if a \<noteq> owner s then NotOwner else PausedError, s)
                            :: error \<times> storage + storage \<times> 'h event)
       \<and> submitEncryptedPrice E a t x s
           = Inl (if \<not> isProvider s a then NotProvider else PausedError, s)
       \<and> requestPriceDecryption E a t r s = Inl (PausedError, s)
       \<and> currentBatch (fst (transact E s (a, t, c))) = currentBatch s
       \<and> lastSubmissionTime (fst (transact E s (a, t, c))) = lastSubmissionTime s
       \<and> lastDecryptionRequestTime (fst (transact E s (a, t, c))) = lastDecryptionRequestTime s
       \<and> (\<forall>q. batchId (decryptionContexts (fst (transact E s (a, t, c))) q)
                  = batchId (decryptionContexts s q)
              \<and> stateHash (decryptionContexts (fst (transact E s (a, t, c))) q)
                  = stateHash (decryptionContexts s q))"
proof -
  have 1: "openBatch a s = (Inl (if a \<noteq> owner s then NotOwner else PausedError, s)
                            :: error \<times> storage + storage \<times> 'h event)"
    using assms by (simp add: openBatch_def onlyOwner_def whenNotPaused_def)
  have 2: "closeBatch a s = (Inl (if a \<noteq> owner s then NotOwner else PausedError, s)
                            :: error \<times> storage + storage \<times> 'h event)"
    using assms by (simp add: closeBatch_def onlyOwner_def whenNotPaused_def)
  have 3: "submitEncryptedPrice E a t x s
           = Inl (if \<not> isProvider s a then NotProvider else PausedError, s)"
    using assms by (simp add: submitEncryptedPrice_def onlyProvider_def whenNotPaused_def)
  have 4: "requestPriceDecryption E a t r s = Inl (PausedError, s)"
    using assms by (simp add: requestPriceDecryption_def whenNotPaused_def)
  have 5: "currentBatch (fst (transact E s (a, t, c))) = currentBatch s
       \<and> lastSubmissionTime (fst (transact E s (a, t, c))) = lastSubmissionTime s
       \<and> lastDecryptionRequestTime (fst (transact E s (a, t, c))) = lastDecryptionRequestTime s
       \<and> (\<forall>q. batchId (decryptionContexts (fst (transact E s (a, t, c))) q)
                  = batchId (decryptionContexts s q)
              \<and> stateHash (decryptionContexts (fst (transact E s (a, t, c))) q)
                  = stateHash (decryptionContexts s q))"
    using transact_cases [of E s a t c] paused_step [OF assms, of E a t c]
    by (elim disjE exE) simp_all
  show ?thesis
    using 1 2 3 4 5 by (simp only: simp_thms)
qed

text \<open>The theorem at a concrete paused state.\<close>

theorem paused_gates_witness:
  "paused s_paused
   \<and> openBatch 13 s_paused
       = (Inl (PausedError, s_paused) :: error \<times> storage + storage \<times> uint32 event)
   \<and> closeBatch 10 s_paused
       = (Inl (NotOwner, s_paused) :: error \<times> storage + storage \<times> uint32 event)
   \<and> submitEncryptedPrice clear_engine 10 1700000000 100 s_paused = Inl (PausedError, s_paused)
   \<and> requestPriceDecryption clear_engine 11 1700000000 1 s_paused = Inl (PausedError, s_paused)
   \<and> currentBatch (fst (transact clear_engine s_paused (13, 1700000000, AddProvider 12)))
       = currentBatch s_paused"
proof -
  have p: "paused s_paused"
    by (simp add: scen_defs eval_defs)
  have o: "owner s_paused = 13 \<and> isProvider s_paused 10"
    by (simp add: scen_defs eval_defs)
  show ?thesis
    using p o paused_gates [OF p, of 13 clear_engine 1700000000 100 1 "AddProvider 12",
        where 'h = uint32]
      paused_gates [OF p, of 10 clear_engine 1700000000 100 1 "AddProvider 12",
        where 'h = uint32]
      paused_gates [OF p, of 11 clear_engine 1700000000 100 1 "AddProvider 12",
        where 'h = uint32]
    by simp
qed

text \<open>C7 as stated fails: while paused, a callback finalises a pending request and the owner
  transfers ownership.\<close>

theorem paused_counterexample:
  "paused s_requested_paused
   \<and> \<not> processed (decryptionContexts s_requested_paused 1)
   \<and> processed (decryptionContexts (fst (transact clear_engine s_requested_paused
         (666, 1700000050, MyCallback 1 cleartext150 cleartext150))) 1)
   \<and> snd (transact clear_engine s_requested_paused
         (666, 1700000050, MyCallback 1 cleartext150 cleartext150))
       = Emitted (DecryptionCompleted 1 1 150)
   \<and> snd (transact clear_engine s_requested_paused (13, 1700000050, TransferOwnership 14))
       = Emitted (OwnershipTransferred 13 14)
   \<and> owner (fst (transact clear_engine s_requested_paused
         (13, 1700000050, TransferOwnership 14))) = 14"
  by (simp add: s_requested_paused_def scen_defs eval_defs abi_decode_150)

subsection \<open>C8: the cooldown\<close>

text \<open>
  Claim C8, for both gated actions. The cooldown modifier runs after the role and pause
  modifiers of a submission and after the pause modifier of a request, and it first adds
  the caller's last action time of that kind and \<^verbatim>\<open>cooldownSeconds\<close> with checked
  arithmetic. For a submission by a provider while not paused, and for a request while
  not paused: if that sum overflows the call reverts with \<^verbatim>\<open>Panic(0x11)\<close>; if it fits,
  a call at a time before the sum reverts with \<^verbatim>\<open>CooldownActive\<close>, and a call at or
  after the sum succeeds when the other preconditions hold (a submission: the batch is
  open, the sample is initialised and the count is not the largest \<^verbatim>\<open>uint256\<close>; a
  request: the batch is closed, its count is not 0 and the two encoded handles are
  initialised). Every successful gated action sets the caller's timer of its kind to
  the block timestamp and changes no other timer.
\<close>

theorem cooldown_enforced:
  "(isProvider s a \<and> \<not> paused s \<and> \<not> fits (lastSubmissionTime s a) (cooldownSeconds s)
      \<longrightarrow> submitEncryptedPrice E a now x s = Inl (Panic 17, s))
   \<and> (isProvider s a \<and> \<not> paused s \<and> fits (lastSubmissionTime s a) (cooldownSeconds s)
      \<and> now < lastSubmissionTime s a + cooldownSeconds s
      \<longrightarrow> submitEncryptedPrice E a now x s = Inl (CooldownActive, s))
   \<and> (isProvider s a \<and> \<not> paused s \<and> fits (lastSubmissionTime s a) (cooldownSeconds s)
      \<and> lastSubmissionTime s a + cooldownSeconds s \<le> now
      \<and> open (currentBatch s) \<and> FHE_isInitialized E x \<and> fits (count (currentBatch s)) 1
      \<longrightarrow> (\<exists>s' ev. submitEncryptedPrice E a now x s = Inr (s', ev)
            \<and> lastSubmissionTime s' = (lastSubmissionTime s)(a := now)
            \<and> lastDecryptionRequestTime s' = lastDecryptionRequestTime s))
   \<and> (\<not> paused s \<and> \<not> fits (lastDecryptionRequestTime s a) (cooldownSeconds s)
      \<longrightarrow> requestPriceDecryption E a now r s = Inl (Panic 17, s))
   \<and> (\<not> paused s \<and> fits (lastDecryptionRequestTime s a) (cooldownSeconds s)
      \<and> now < lastDecryptionRequestTime s a + cooldownSeconds s
      \<longrightarrow> requestPriceDecryption E a now r s = Inl (CooldownActive, s))
   \<and> (\<not> paused s \<and> fits (lastDecryptionRequestTime s a) (cooldownSeconds s)
      \<and> lastDecryptionRequestTime s a + cooldownSeconds s \<le> now
      \<and> \<not> open (currentBatch s) \<and> count (currentBatch s) \<noteq> 0
      \<and> FHE_isInitialized E (FHE_asEuint32 E (priceSum (currentBatch s)))
      \<and> FHE_isInitialized E (FHE_asEuint32 E (count (currentBatch s)))
      \<longrightarrow> (\<exists>s' ev cts. requestPriceDecryption E a now r s = Inr (s', ev, cts)
            \<and> lastDecryptionRequestTime s' = (lastDecryptionRequestTime s)(a := now)
            \<and> lastSubmissionTime s' = lastSubmissionTime s))
   \<and> (\<forall>s' ev. submitEncryptedPrice E a now x s = Inr (s', ev)
         \<longrightarrow> lastSubmissionTime s' = (lastSubmissionTime s)(a := now)
             \<and> lastDecryptionRequestTime s' = lastDecryptionRequestTime s)
   \<and> (\<forall>s' ev cts. requestPriceDecryption E a now r s = Inr (s', ev, cts)
         \<longrightarrow> lastDecryptionRequestTime s' = (lastDecryptionRequestTime s)(a := now)
             \<and> lastSubmissionTime s' = lastSubmissionTime s)"
proof (intro conjI impI allI)
  assume "isProvider s a \<and> \<not> paused s \<and> \<not> fits (lastSubmissionTime s a) (cooldownSeconds s)"
  then show "submitEncryptedPrice E a now x s = Inl (Panic 17, s)"
    by (simp add: submitEncryptedPrice_def mod_defs checked_add_def)
next
  assume "isProvider s a \<and> \<not> paused s \<and> fits (lastSubmissionTime s a) (cooldownSeconds s)
      \<and> now < lastSubmissionTime s a + cooldownSeconds s"
  then show "submitEncryptedPrice E a now x s = Inl (CooldownActive, s)"
    by (simp add: submitEncryptedPrice_def mod_defs checked_add_def)
next
  assume "isProvider s a \<and> \<not> paused s \<and> fits (lastSubmissionTime s a) (cooldownSeconds s)
      \<and> lastSubmissionTime s a + cooldownSeconds s \<le> now
      \<and> open (currentBatch s) \<and> FHE_isInitialized E x \<and> fits (count (currentBatch s)) 1"
  then show "\<exists>s' ev. submitEncryptedPrice E a now x s = Inr (s', ev)
            \<and> lastSubmissionTime s' = (lastSubmissionTime s)(a := now)
            \<and> lastDecryptionRequestTime s' = lastDecryptionRequestTime s"
    by (simp add: submit_Inr checkSubmissionCooldown_None)
next
  assume "\<not> paused s \<and> \<not> fits (lastDecryptionRequestTime s a) (cooldownSeconds s)"
  then show "requestPriceDecryption E a now r s = Inl (Panic 17, s)"
    by (simp add: requestPriceDecryption_def mod_defs checked_add_def)
next
  assume "\<not> paused s \<and> fits (lastDecryptionRequestTime s a) (cooldownSeconds s)
      \<and> now < lastDecryptionRequestTime s a + cooldownSeconds s"
  then show "requestPriceDecryption E a now r s = Inl (CooldownActive, s)"
    by (simp add: requestPriceDecryption_def mod_defs checked_add_def)
next
  assume "\<not> paused s \<and> fits (lastDecryptionRequestTime s a) (cooldownSeconds s)
      \<and> lastDecryptionRequestTime s a + cooldownSeconds s \<le> now
      \<and> \<not> open (currentBatch s) \<and> count (currentBatch s) \<noteq> 0
      \<and> FHE_isInitialized E (FHE_asEuint32 E (priceSum (currentBatch s)))
      \<and> FHE_isInitialized E (FHE_asEuint32 E (count (currentBatch s)))"
  then show "\<exists>s' ev cts. requestPriceDecryption E a now r s = Inr (s', ev, cts)
            \<and> lastDecryptionRequestTime s' = (lastDecryptionRequestTime s)(a := now)
            \<and> lastSubmissionTime s' = lastSubmissionTime s"
    by (simp add: request_Inr checkDecryptionCooldown_None)
next
  fix s' ev
  assume "submitEncryptedPrice E a now x s = Inr (s', ev)"
  then show "lastSubmissionTime s' = (lastSubmissionTime s)(a := now)"
    by (simp add: submit_Inr)
next
  fix s' ev
  assume "submitEncryptedPrice E a now x s = Inr (s', ev)"
  then show "lastDecryptionRequestTime s' = lastDecryptionRequestTime s"
    by (simp add: submit_Inr)
next
  fix s' ev cts
  assume "requestPriceDecryption E a now r s = Inr (s', ev, cts)"
  then show "lastDecryptionRequestTime s' = (lastDecryptionRequestTime s)(a := now)"
    by (simp add: request_Inr)
next
  fix s' ev cts
  assume "requestPriceDecryption E a now r s = Inr (s', ev, cts)"
  then show "lastSubmissionTime s' = lastSubmissionTime s"
    by (simp add: request_Inr)
qed

text \<open>The theorem at six concrete calls: a submission and a request whose sum overflows,
  and a submission and a request 59 and 60 seconds after the last one.\<close>

theorem cooldown_enforced_witness:
  "(isProvider s_max_cooldown 10 \<and> \<not> paused s_max_cooldown
      \<and> \<not> fits (lastSubmissionTime s_max_cooldown 10) (cooldownSeconds s_max_cooldown)
      \<and> submitEncryptedPrice clear_engine 10 1700000010 7 s_max_cooldown
           = Inl (Panic 17, s_max_cooldown))
   \<and> (isProvider s_open 10 \<and> \<not> paused s_open
      \<and> fits (lastSubmissionTime s_open 10) (cooldownSeconds s_open)
      \<and> 1700000059 < lastSubmissionTime s_open 10 + cooldownSeconds s_open
      \<and> submitEncryptedPrice clear_engine 10 1700000059 7 s_open = Inl (CooldownActive, s_open))
   \<and> (lastSubmissionTime s_open 10 + cooldownSeconds s_open \<le> 1700000060
      \<and> open (currentBatch s_open) \<and> FHE_isInitialized clear_engine 7
      \<and> fits (count (currentBatch s_open)) 1
      \<and> (\<exists>s' ev. submitEncryptedPrice clear_engine 10 1700000060 7 s_open = Inr (s', ev)
            \<and> lastSubmissionTime s' = (lastSubmissionTime s_open)(10 := 1700000060)
            \<and> lastDecryptionRequestTime s' = lastDecryptionRequestTime s_open))
   \<and> (\<not> paused s_requested_max_cooldown
      \<and> \<not> fits (lastDecryptionRequestTime s_requested_max_cooldown 11)
               (cooldownSeconds s_requested_max_cooldown)
      \<and> requestPriceDecryption clear_engine 11 1700000010 2 s_requested_max_cooldown
           = Inl (Panic 17, s_requested_max_cooldown))
   \<and> (\<not> paused s_requested
      \<and> fits (lastDecryptionRequestTime s_requested 11) (cooldownSeconds s_requested)
      \<and> 1700000061 < lastDecryptionRequestTime s_requested 11 + cooldownSeconds s_requested
      \<and> requestPriceDecryption clear_engine 11 1700000061 2 s_requested
           = Inl (CooldownActive, s_requested))
   \<and> (lastDecryptionRequestTime s_requested 11 + cooldownSeconds s_requested \<le> 1700000062
      \<and> \<not> open (currentBatch s_requested) \<and> count (currentBatch s_requested) \<noteq> 0
      \<and> (\<exists>s' ev cts. requestPriceDecryption clear_engine 11 1700000062 2 s_requested
                     = Inr (s', ev, cts)
            \<and> lastDecryptionRequestTime s'
                = (lastDecryptionRequestTime s_requested)(11 := 1700000062)
            \<and> lastSubmissionTime s' = lastSubmissionTime s_requested))"
proof -
  have p: "isProvider s_max_cooldown 10 \<and> \<not> paused s_max_cooldown
      \<and> \<not> fits (lastSubmissionTime s_max_cooldown 10) (cooldownSeconds s_max_cooldown)"
    by (simp add: scen_defs eval_defs)
  have a: "isProvider s_open 10 \<and> \<not> paused s_open
      \<and> fits (lastSubmissionTime s_open 10) (cooldownSeconds s_open)
      \<and> 1700000059 < lastSubmissionTime s_open 10 + cooldownSeconds s_open"
    by (simp add: scen_defs eval_defs)
  have b: "isProvider s_open 10 \<and> \<not> paused s_open
      \<and> fits (lastSubmissionTime s_open 10) (cooldownSeconds s_open)
      \<and> lastSubmissionTime s_open 10 + cooldownSeconds s_open \<le> 1700000060
      \<and> open (currentBatch s_open) \<and> FHE_isInitialized clear_engine 7
      \<and> fits (count (currentBatch s_open)) 1"
    by (simp add: scen_defs eval_defs)
  have q: "\<not> paused s_requested_max_cooldown
      \<and> \<not> fits (lastDecryptionRequestTime s_requested_max_cooldown 11)
               (cooldownSeconds s_requested_max_cooldown)"
    by (simp add: scen_defs eval_defs)
  have c: "\<not> paused s_requested
      \<and> fits (lastDecryptionRequestTime s_requested 11) (cooldownSeconds s_requested)
      \<and> 1700000061 < lastDecryptionRequestTime s_requested 11 + cooldownSeconds s_requested"
    by (simp add: scen_defs eval_defs)
  have d: "\<not> paused s_requested
      \<and> fits (lastDecryptionRequestTime s_requested 11) (cooldownSeconds s_requested)
      \<and> lastDecryptionRequestTime s_requested 11 + cooldownSeconds s_requested \<le> 1700000062
      \<and> \<not> open (currentBatch s_requested) \<and> count (currentBatch s_requested) \<noteq> 0
      \<and> FHE_isInitialized clear_engine
            (FHE_asEuint32 clear_engine (priceSum (currentBatch s_requested)))
      \<and> FHE_isInitialized clear_engine
            (FHE_asEuint32 clear_engine (count (currentBatch s_requested)))"
    by (simp add: scen_defs eval_defs)
  have p': "submitEncryptedPrice clear_engine 10 1700000010 7 s_max_cooldown
              = Inl (Panic 17, s_max_cooldown)"
    by (rule cooldown_enforced [THEN conjunct1, THEN mp]) (rule p)
  have a': "submitEncryptedPrice clear_engine 10 1700000059 7 s_open
              = Inl (CooldownActive, s_open)"
    by (rule cooldown_enforced [THEN conjunct2, THEN conjunct1, THEN mp]) (rule a)
  have b': "\<exists>s' ev. submitEncryptedPrice clear_engine 10 1700000060 7 s_open = Inr (s', ev)
            \<and> lastSubmissionTime s' = (lastSubmissionTime s_open)(10 := 1700000060)
            \<and> lastDecryptionRequestTime s' = lastDecryptionRequestTime s_open"
    by (rule cooldown_enforced [THEN conjunct2, THEN conjunct2, THEN conjunct1, THEN mp])
      (rule b)
  have q': "requestPriceDecryption clear_engine 11 1700000010 2 s_requested_max_cooldown
              = Inl (Panic 17, s_requested_max_cooldown)"
    by (rule cooldown_enforced [THEN conjunct2, THEN conjunct2, THEN conjunct2,
          THEN conjunct1, THEN mp]) (rule q)
  have c': "requestPriceDecryption clear_engine 11 1700000061 2 s_requested
              = Inl (CooldownActive, s_requested)"
    by (rule cooldown_enforced [THEN conjunct2, THEN conjunct2, THEN conjunct2,
          THEN conjunct2, THEN conjunct1, THEN mp]) (rule c)
  have d': "\<exists>s' ev cts. requestPriceDecryption clear_engine 11 1700000062 2 s_requested
                     = Inr (s', ev, cts)
            \<and> lastDecryptionRequestTime s'
                = (lastDecryptionRequestTime s_requested)(11 := 1700000062)
            \<and> lastSubmissionTime s' = lastSubmissionTime s_requested"
    by (rule cooldown_enforced [THEN conjunct2, THEN conjunct2, THEN conjunct2,
          THEN conjunct2, THEN conjunct2, THEN conjunct1, THEN mp]) (rule d)
  show ?thesis
    using p a b q c d p' a' b' q' c' d' by (simp only: simp_thms)
qed

text \<open>C8 as stated fails where the sum overflows: after the owner sets the cooldown to
  \<open>2 ^ 256 - 1\<close>, a submission 10 seconds after a successful one reverts with the
  arithmetic panic, not with \<^verbatim>\<open>CooldownActive\<close>.\<close>

theorem cooldown_overflow_counterexample:
  "isProvider s_max_cooldown 10 \<and> \<not> paused s_max_cooldown \<and> open (currentBatch s_max_cooldown)
   \<and> lastSubmissionTime s_max_cooldown 10 = 1700000000
   \<and> (1700000010 :: uint256) - 1700000000 < cooldownSeconds s_max_cooldown
   \<and> submitEncryptedPrice clear_engine 10 1700000010 7 s_max_cooldown
        = Inl (Panic 17, s_max_cooldown)
   \<and> snd (transact clear_engine s_max_cooldown (10, 1700000010, SubmitEncryptedPrice 7))
        \<noteq> Reverted CooldownActive"
  by (simp add: scen_defs eval_defs)

subsection \<open>C9: a failing call changes nothing\<close>



subsection \<open>C10: the state after construction\<close>

text \<open>
  Claim C10: after construction the owner is the deployer, the cooldown is 60 seconds,
  the contract is not paused, no address is a provider, the batch is
  \<open>(id 0, closed, sum 0, count 0)\<close> and every timer is 0. The claim adds that the first
  gated action of a fresh address always passes the cooldown check; what holds is that
  an address whose timer is 0 passes the check exactly when the block timestamp is at
  least \<^verbatim>\<open>cooldownSeconds\<close>.
\<close>

theorem constructor_state:
  "owner (constructor d) = d \<and> cooldownSeconds (constructor d) = 60
   \<and> \<not> paused (constructor d) \<and> (\<forall>a. \<not> isProvider (constructor d) a)
   \<and> currentBatch (constructor d) = \<lparr> id_Batch = 0, open = False, priceSum = 0, count = 0 \<rparr>
   \<and> (\<forall>a. lastSubmissionTime (constructor d) a = 0
          \<and> lastDecryptionRequestTime (constructor d) a = 0)
   \<and> (lastSubmissionTime s a = 0 \<longrightarrow>
        (checkSubmissionCooldown s a now = None) = (cooldownSeconds s \<le> now))
   \<and> (lastDecryptionRequestTime s a = 0 \<longrightarrow>
        (checkDecryptionCooldown s a now = None) = (cooldownSeconds s \<le> now))"
  by (simp add: constructor_def checkSubmissionCooldown_None checkDecryptionCooldown_None)

text \<open>The theorem at the constructor state and a timestamp of 1700000000.\<close>

theorem constructor_state_witness:
  "owner (constructor 13) = 13 \<and> cooldownSeconds (constructor 13) = 60
   \<and> lastSubmissionTime (constructor 13) 10 = 0
   \<and> lastDecryptionRequestTime (constructor 13) 10 = 0
   \<and> cooldownSeconds (constructor 13) \<le> 1700000000
   \<and> checkSubmissionCooldown (constructor 13) 10 1700000000 = None
   \<and> checkDecryptionCooldown (constructor 13) 10 1700000000 = None"
  using constructor_state [of 13 "constructor 13" 10 1700000000]
  by (simp add: constructor_def)

text \<open>C10 as stated fails: a fresh address is refused at timestamp 59 right after
  construction, and at timestamp 1793000000 once the owner has set a cooldown of
  2000000000 seconds.\<close>

theorem first_action_counterexample:
  "lastDecryptionRequestTime (constructor 13) 10 = 0
   \<and> requestPriceDecryption clear_engine 10 59 1 (constructor 13)
        = Inl (CooldownActive, constructor 13)
   \<and> lastSubmissionTime s_fresh_long 10 = 0
   \<and> submitEncryptedPrice clear_engine 10 1793000000 100 s_fresh_long
        = Inl (CooldownActive, s_fresh_long)"
  by (simp add: scen_defs eval_defs)

end
